theory Spec2Isabelle
  imports Complex_Main "HOL-Library.Word"
begin

unbundle bit_operations_syntax

section \<open>Strings of the source language\<close>

text \<open>
  A TypeScript string is a sequence of UTF-16 code units. String literals of the source
  that are plain ASCII are written with \<open>ascii\<close>; the others are spelled out by
  code unit.
\<close>

type_synonym code_unit = "16 word"
type_synonym jsstring = "code_unit list"

definition ascii :: "string \<Rightarrow> jsstring" where
  "ascii cs = map (\<lambda>c. word_of_nat (of_char c)) cs"

text \<open>
  \<open>String.prototype.trim\<close> strips WhiteSpace and LineTerminator code points from
  both ends (ECMAScript: TAB, VT, FF, SP, NBSP, ZWNBSP, the category Zs, LF, CR, LS, PS).
\<close>

definition whitespace_units :: "code_unit list" where
  "whitespace_units =
     [0x0009, 0x000A, 0x000B, 0x000C, 0x000D, 0x0020, 0x00A0, 0x1680,
      0x2000, 0x2001, 0x2002, 0x2003, 0x2004, 0x2005, 0x2006, 0x2007,
      0x2008, 0x2009, 0x200A, 0x2028, 0x2029, 0x202F, 0x205F, 0x3000, 0xFEFF]"

definition is_whitespace :: "code_unit \<Rightarrow> bool" where
  "is_whitespace c = (c \<in> set whitespace_units)"

definition trim :: "jsstring \<Rightarrow> jsstring" where
  "trim s = rev (dropWhile is_whitespace (rev (dropWhile is_whitespace s)))"

text \<open>Truthiness of a string: \<open>!s\<close> holds exactly for the empty string.\<close>

definition truthy :: "jsstring \<Rightarrow> bool" where
  "truthy s = (s \<noteq> [])"

text \<open>\<open>a || b\<close> on a possibly undefined string \<open>a\<close>.\<close>

definition or_else :: "jsstring option \<Rightarrow> jsstring \<Rightarrow> jsstring" where
  "or_else a b = (case a of None \<Rightarrow> b | Some s \<Rightarrow> if truthy s then s else b)"

section \<open>The language catalog\<close>

record Language =
  code :: jsstring
  name :: jsstring
  flag :: jsstring

definition languages :: "Language list" where
  "languages =
    [\<lparr>code = ascii ''en'', name = [0x130] @ ascii ''ngilizce'',
      flag = [0xD83C, 0xDDEC, 0xD83C, 0xDDE7]\<rparr>,
     \<lparr>code = ascii ''tr'', name = ascii ''T'' @ [0xFC] @ ascii ''rk'' @ [0xE7] @ ascii ''e'',
      flag = [0xD83C, 0xDDF9, 0xD83C, 0xDDF7]\<rparr>,
     \<lparr>code = ascii ''de'', name = ascii ''Almanca'',
      flag = [0xD83C, 0xDDE9, 0xD83C, 0xDDEA]\<rparr>,
     \<lparr>code = ascii ''fr'', name = ascii ''Frans'' @ [0x131] @ ascii ''zca'',
      flag = [0xD83C, 0xDDEB, 0xD83C, 0xDDF7]\<rparr>,
     \<lparr>code = ascii ''ar'', name = ascii ''Arap'' @ [0xE7] @ ascii ''a'',
      flag = [0xD83C, 0xDDF8, 0xD83C, 0xDDE6]\<rparr>,
     \<lparr>code = ascii ''it'', name = [0x130] @ ascii ''talyanca'',
      flag = [0xD83C, 0xDDEE, 0xD83C, 0xDDF9]\<rparr>,
     \<lparr>code = ascii ''ru'', name = ascii ''Rus'' @ [0xE7] @ ascii ''a'',
      flag = [0xD83C, 0xDDF7, 0xD83C, 0xDDFA]\<rparr>]"

section \<open>Settling of asynchronous calls\<close>

text \<open>
  An awaited call either returns, throws, or never settles. Every exception the
  source can meet is a value of \<open>exn\<close>.
\<close>

datatype exn =
    TransportError
  | SyntaxError
  | TypeError
  | InvalidCharacterError
  | RangeError
  | NotSupportedError
  | DeviceError

datatype 'a settled = Returned 'a | Thrown exn | Pending

text \<open>What the remote service does with one \<open>generateContent\<close> request.\<close>

datatype 'r outcome = Resolves 'r | Rejects | Hangs

section \<open>Translation client\<close>

record TranslationResult =
  translatedText :: jsstring
  detectedLanguageCode :: jsstring

text \<open>
  The value \<open>JSON.parse\<close> returns, as far as \<open>translateText\<close> reads it. Reading a
  property of \<open>null\<close> throws a TypeError; any other value has the two properties
  either absent (undefined) or present. The request constrains both to the schema type
  STRING, so a present property is a string.
\<close>

datatype parsed =
    ParsedNull
  | ParsedValue (prop_translatedText: "jsstring option")
                (prop_detectedLanguageCode: "jsstring option")

text \<open>
  A \<open>generateContent\<close> request, as far as the two clients differ: the model, the
  contents, and the configuration (a JSON response schema, or audio with a prebuilt
  voice).
\<close>

datatype request_config = JsonSchema | AudioVoice jsstring

record generate_request =
  model :: jsstring
  contents :: jsstring
  config :: request_config

text \<open>What a client call does to the outside world, in order.\<close>

datatype effect =
    Sent generate_request
  | PlaybackStarted "real list" nat
  | PlaybackEnded

definition translate_prompt :: "jsstring \<Rightarrow> jsstring \<Rightarrow> jsstring \<Rightarrow> jsstring" where
  "translate_prompt text sourceLang targetLang =
     ascii ''Translate the following text to '' @ targetLang @ ascii ''. '' @ [0x0A] @
     ascii ''      If the text is not in '' @ sourceLang @
     ascii '', detect the actual language and translate from that language instead.'' @ [0x0A] @
     ascii ''      Provide the result in JSON format with '' @ [0x27] @ ascii ''translatedText'' @
     [0x27] @ ascii '' and '' @ [0x27] @ ascii ''detectedLanguageCode'' @ [0x27] @
     ascii '' (ISO 639-1).'' @ [0x0A] @
     ascii ''      Text: '' @ [0x22] @ text @ [0x22]"

definition translation_error_text :: jsstring where
  "translation_error_text =
     [0xC7] @ ascii ''eviri hatas'' @ [0x131] @ ascii '' olu'' @ [0x15F] @ ascii ''tu.''"

text \<open>
  \<open>translateText\<close> up to its \<open>await\<close>: either it returns at once, or it has sent
  a request and is suspended on it. The client object is built before the \<open>try\<close>
  block; its constructor belongs to the library and is taken to return for every key.
\<close>

definition translateText_call ::
  "jsstring \<Rightarrow> jsstring \<Rightarrow> jsstring \<Rightarrow> TranslationResult + generate_request" where
  "translateText_call text sourceLang targetLang =
     (if \<not> truthy (trim text)
      then Inl \<lparr>translatedText = [], detectedLanguageCode = sourceLang\<rparr>
      else Inr \<lparr>model = ascii ''gemini-3-flash-preview'',
                contents = translate_prompt text sourceLang targetLang,
                config = JsonSchema\<rparr>)"

text \<open>
  The body of the \<open>try\<close> block after the awaited call has settled: \<open>JSON_parse\<close> is
  the built-in parser (\<open>None\<close> when it throws a SyntaxError), \<open>response_text\<close> the
  \<open>text\<close> of the response (\<open>None\<close> when undefined).
\<close>

definition translate_try ::
  "(jsstring \<Rightarrow> parsed option) \<Rightarrow> jsstring \<Rightarrow> (jsstring option) outcome
     \<Rightarrow> TranslationResult settled" where
  "translate_try JSON_parse sourceLang out =
     (case out of
        Hangs \<Rightarrow> Pending
      | Rejects \<Rightarrow> Thrown TransportError
      | Resolves response_text \<Rightarrow>
          (case JSON_parse (or_else response_text (ascii ''{}'')) of
             None \<Rightarrow> Thrown SyntaxError
           | Some ParsedNull \<Rightarrow> Thrown TypeError
           | Some (ParsedValue tt dl) \<Rightarrow>
               Returned \<lparr>translatedText = or_else tt [],
                         detectedLanguageCode = or_else dl sourceLang\<rparr>))"

text \<open>The \<open>catch\<close> clause: every exception becomes the fixed error result.\<close>

definition translate_catch ::
  "jsstring \<Rightarrow> TranslationResult settled \<Rightarrow> TranslationResult settled" where
  "translate_catch sourceLang r =
     (case r of
        Thrown e \<Rightarrow> Returned \<lparr>translatedText = translation_error_text,
                               detectedLanguageCode = sourceLang\<rparr>
      | _ \<Rightarrow> r)"

definition translateText_resume ::
  "(jsstring \<Rightarrow> parsed option) \<Rightarrow> jsstring \<Rightarrow> (jsstring option) outcome
     \<Rightarrow> TranslationResult settled" where
  "translateText_resume JSON_parse sourceLang out =
     translate_catch sourceLang (translate_try JSON_parse sourceLang out)"

text \<open>
  \<open>translateText\<close> against a remote service \<open>generateContent\<close>. The second component
  lists what the call did to the outside world: the requests it sent over the network.
\<close>

definition translateText ::
  "(jsstring \<Rightarrow> parsed option) \<Rightarrow> (generate_request \<Rightarrow> (jsstring option) outcome)
     \<Rightarrow> jsstring \<Rightarrow> jsstring \<Rightarrow> jsstring
     \<Rightarrow> TranslationResult settled \<times> effect list" where
  "translateText JSON_parse generateContent text sourceLang targetLang =
     (case translateText_call text sourceLang targetLang of
        Inl result \<Rightarrow> (Returned result, [])
      | Inr request \<Rightarrow>
          (translateText_resume JSON_parse sourceLang (generateContent request),
           [Sent request]))"

section \<open>Audio decoder and player\<close>

text \<open>
  \<open>new Int16Array(buffer)\<close> throws a RangeError on a buffer of odd length; otherwise it
  views each pair of bytes as one sample, low byte first (the byte order of the
  platforms the code runs on). A sample is kept as a 16-bit word and read as signed.
\<close>

fun int16_pairs :: "8 word list \<Rightarrow> 16 word list" where
  "int16_pairs (lo # hi # bytes) = (ucast lo OR push_bit 8 (ucast hi)) # int16_pairs bytes"
| "int16_pairs bytes = []"

definition Int16Array :: "8 word list \<Rightarrow> exn + 16 word list" where
  "Int16Array buffer =
     (if odd (length buffer) then Inl RangeError else Inr (int16_pairs buffer))"

text \<open>
  The conversion loop: \<open>float32Array[i] = int16Array[i] / 32768.0\<close>. The quotient of a
  16-bit integer by \<open>2 ^ 15\<close> is a binary fraction of at most 16 significant bits, so
  both the double division and the store into a Float32Array are exact, and the sample
  is the real number \<open>s / 32768\<close>.
\<close>

definition pcm_to_float :: "16 word \<Rightarrow> real" where
  "pcm_to_float s = real_of_int (sint s) / 32768"

definition to_float32Array :: "16 word list \<Rightarrow> real list" where
  "to_float32Array int16Array = map pcm_to_float int16Array"

text \<open>
  The payload format of the speech service, in the words of the specification: raw 16-bit
  little-endian signed PCM. \<open>pcm16_le_bytes\<close> lays a sequence of samples out in that
  format; it is the encoding side of the round trip through the conversion above and is
  not part of the source.
\<close>

definition pcm16_le_bytes :: "16 word list \<Rightarrow> 8 word list" where
  "pcm16_le_bytes ss = concat (map (\<lambda>s. [ucast s, ucast (drop_bit 8 s)]) ss)"

text \<open>
  The usual encoder of a float sample, likewise not part of the source: scale by 32768,
  round to the nearest integer and clamp to the 16-bit range.
\<close>

definition encode_pcm16 :: "real \<Rightarrow> 16 word" where
  "encode_pcm16 x = word_of_int (max (- 32768) (min 32767 (round (32768 * x))))"

text \<open>
  What the audio device does with a buffer handed to it: it fails before playback starts
  (\<open>createBuffer\<close>, \<open>start\<close>), or it plays and reports the end, or it never reports it.
\<close>

datatype playback = Ended | NeverEnds | Fails exn

text \<open>
  \<open>playPcmAudio\<close>. \<open>AudioContext\<close> is \<open>None\<close> when the constructor throws, and
  otherwise the behaviour of the context on a sample buffer and a sample rate.
\<close>

definition playPcmAudio ::
  "(real list \<Rightarrow> nat \<Rightarrow> playback) option \<Rightarrow> 8 word list \<Rightarrow> nat
     \<Rightarrow> unit settled \<times> effect list" where
  "playPcmAudio AudioContext buffer sampleRate =
     (case AudioContext of
        None \<Rightarrow> (Thrown DeviceError, [])
      | Some audioCtx \<Rightarrow>
          (case Int16Array buffer of
             Inl e \<Rightarrow> (Thrown e, [])
           | Inr int16Array \<Rightarrow>
               let float32Array = to_float32Array int16Array in
               (case audioCtx float32Array sampleRate of
                  Fails e \<Rightarrow> (Thrown e, [])
                | NeverEnds \<Rightarrow> (Pending, [PlaybackStarted float32Array sampleRate])
                | Ended \<Rightarrow>
                    (Returned (), [PlaybackStarted float32Array sampleRate, PlaybackEnded]))))"

section \<open>Speech client\<close>

text \<open>A part of a response: its \<open>inlineData\<close>, if any, with its \<open>data\<close>, if any.\<close>

record inline_data =
  data :: "jsstring option"

record part =
  inlineData :: "inline_data option"

text \<open>
  \<open>response.candidates?.[0]?.content?.parts\<close> is \<open>None\<close> when any link of the chain is
  undefined. \<open>find\<close> takes the first part with inline data; \<open>base64Audio\<close> is its data.
\<close>

definition base64Audio_of :: "part list option \<Rightarrow> jsstring option" where
  "base64Audio_of parts =
     (case parts of
        None \<Rightarrow> None
      | Some ps \<Rightarrow>
          (case find (\<lambda>p. inlineData p \<noteq> None) ps of
             None \<Rightarrow> None
           | Some p \<Rightarrow> (case inlineData p of None \<Rightarrow> None | Some d \<Rightarrow> data d)))"

text \<open>
  \<open>base64ToArrayBuffer\<close>: \<open>atob\<close> is the built-in decoder (\<open>None\<close> when it throws);
  storing a char code into a Uint8Array keeps its low eight bits.
\<close>

definition base64ToArrayBuffer ::
  "(jsstring \<Rightarrow> jsstring option) \<Rightarrow> jsstring \<Rightarrow> exn + 8 word list" where
  "base64ToArrayBuffer atob base64 =
     (case atob base64 of
        None \<Rightarrow> Inl InvalidCharacterError
      | Some binaryString \<Rightarrow> Inr (map ucast binaryString))"

definition speakText_call :: "jsstring \<Rightarrow> jsstring \<Rightarrow> bool + generate_request" where
  "speakText_call text langCode =
     (if \<not> truthy (trim text) then Inl False
      else Inr \<lparr>model = ascii ''gemini-2.5-flash-preview-tts'',
                contents = ascii ''Say this clearly: '' @ text,
                config = AudioVoice (ascii ''Kore'')\<rparr>)"

definition speak_try ::
  "(jsstring \<Rightarrow> jsstring option) \<Rightarrow> (real list \<Rightarrow> nat \<Rightarrow> playback) option
     \<Rightarrow> (part list option) outcome \<Rightarrow> bool settled \<times> effect list" where
  "speak_try atob AudioContext out =
     (case out of
        Hangs \<Rightarrow> (Pending, [])
      | Rejects \<Rightarrow> (Thrown TransportError, [])
      | Resolves parts \<Rightarrow>
          (case base64Audio_of parts of
             None \<Rightarrow> (Returned False, [])
           | Some base64Audio \<Rightarrow>
               if truthy base64Audio then
                 (case base64ToArrayBuffer atob base64Audio of
                    Inl e \<Rightarrow> (Thrown e, [])
                  | Inr audioData \<Rightarrow>
                      (case playPcmAudio AudioContext audioData 24000 of
                         (Returned u, eff) \<Rightarrow> (Returned True, eff)
                       | (Thrown e, eff) \<Rightarrow> (Thrown e, eff)
                       | (Pending, eff) \<Rightarrow> (Pending, eff)))
               else (Returned False, [])))"

definition speak_catch :: "bool settled \<times> effect list \<Rightarrow> bool settled \<times> effect list" where
  "speak_catch r = (case r of (Thrown e, eff) \<Rightarrow> (Returned False, eff) | _ \<Rightarrow> r)"

definition speakText_resume ::
  "(jsstring \<Rightarrow> jsstring option) \<Rightarrow> (real list \<Rightarrow> nat \<Rightarrow> playback) option
     \<Rightarrow> (part list option) outcome \<Rightarrow> bool settled \<times> effect list" where
  "speakText_resume atob AudioContext out = speak_catch (speak_try atob AudioContext out)"


section \<open>Interactive session controller\<close>

text \<open>
  The state of the component: the values held by \<open>useState\<close> and \<open>useRef\<close>, and
  next to them the part of the host the component acts on: the clock (in ms), the
  pending timeouts with their id, due time and the arguments their callback passes to
  \<open>handleTranslate\<close>, the calls of \<open>handleTranslate\<close> and \<open>handleSpeak\<close> that
  are suspended at their \<open>await\<close> (for a speech call also whether it has stalled:
  its request is never answered or its playback never ends), and everything the clients
  did to the outside world.
  The state that only drives the presentation (the two menus, the copied indicator) is
  left out: no handler modelled here reads it.
\<close>

type_synonym timeout = "nat \<times> nat \<times> jsstring \<times> jsstring \<times> jsstring"

record session =
  sourceText :: jsstring
  targetText :: jsstring
  sourceLang :: jsstring
  targetLang :: jsstring
  isLoading :: bool
  isSpeaking :: bool
  debounceTimer :: "nat option"
  clock :: nat
  next_timer :: nat
  timers :: "timeout list"
  translating :: "(jsstring \<times> jsstring \<times> jsstring) list"
  speaking :: "(jsstring \<times> jsstring) list"
  stalled :: "bool list"
  effects :: "effect list"

text \<open>The built-in functions of the host that the clients call.\<close>

record builtins =
  host_JSON_parse :: "jsstring \<Rightarrow> parsed option"
  host_atob :: "jsstring \<Rightarrow> jsstring option"

subsection \<open>The debounce effect\<close>

definition clearTimeout :: "nat \<Rightarrow> session \<Rightarrow> session" where
  "clearTimeout tid s = s\<lparr>timers := filter (\<lambda>t. fst t \<noteq> tid) (timers s)\<rparr>"

text \<open>
  \<open>if (debounceTimer.current) clearTimeout(debounceTimer.current)\<close>: the first line of
  the effect and the whole of its cleanup. A timer id is truthy unless it is 0.
\<close>

definition clear_debounce :: "session \<Rightarrow> session" where
  "clear_debounce s =
     (case debounceTimer s of
        None \<Rightarrow> s
      | Some tid \<Rightarrow> if tid \<noteq> 0 then clearTimeout tid s else s)"

definition debounce_effect :: "session \<Rightarrow> session" where
  "debounce_effect s =
     (let s1 = clear_debounce s in
      if truthy (sourceText s1)
      then s1\<lparr>debounceTimer := Some (next_timer s1),
               timers := timers s1 @
                 [(next_timer s1, clock s1 + 300, sourceText s1, sourceLang s1, targetLang s1)],
               next_timer := Suc (next_timer s1)\<rparr>
      else s1\<lparr>targetText := []\<rparr>)"

text \<open>The dependency array of the effect (\<open>handleTranslate\<close> never changes).\<close>

definition deps :: "session \<Rightarrow> jsstring \<times> jsstring \<times> jsstring" where
  "deps s = (sourceText s, sourceLang s, targetLang s)"

text \<open>
  Committing the state updates of an event handler that ran in state \<open>prev\<close>: the
  updates of one handler are committed together, and when a dependency changed, the
  cleanup of the previous effect runs and then the effect. The update the effect makes
  itself changes no dependency, so the effect does not run again.
\<close>

definition render :: "session \<Rightarrow> session \<Rightarrow> session" where
  "render prev s =
     (if deps s = deps prev then s else debounce_effect (clear_debounce s))"

subsection \<open>Event handlers\<close>

text \<open>\<open>handleTranslate\<close> after its \<open>await\<close>, with the result of \<open>translateText\<close>.\<close>

definition handleTranslate_resume :: "session \<Rightarrow> jsstring \<Rightarrow> TranslationResult \<Rightarrow> session" where
  "handleTranslate_resume s sLang result =
     (let s1 =
        (if truthy (detectedLanguageCode result) \<and> detectedLanguageCode result \<noteq> sLang
         then (case find (\<lambda>l. code l = detectedLanguageCode result) languages of
                 Some foundLang \<Rightarrow> s\<lparr>sourceLang := code foundLang\<rparr>
               | None \<Rightarrow> s)
         else s)
      in s1\<lparr>targetText := translatedText result, isLoading := False\<rparr>)"

text \<open>\<open>handleTranslate\<close> up to its \<open>await\<close>.\<close>

definition handleTranslate :: "session \<Rightarrow> jsstring \<Rightarrow> jsstring \<Rightarrow> jsstring \<Rightarrow> session" where
  "handleTranslate s text sLang tLang =
     (if \<not> truthy (trim text) then s\<lparr>targetText := []\<rparr>
      else
        let s1 = s\<lparr>isLoading := True\<rparr> in
        (case translateText_call text sLang tLang of
           Inl result \<Rightarrow> handleTranslate_resume s1 sLang result
         | Inr request \<Rightarrow>
             s1\<lparr>translating := translating s1 @ [(text, sLang, tLang)],
                effects := effects s1 @ [Sent request]\<rparr>))"

definition swapLanguages :: "session \<Rightarrow> session" where
  "swapLanguages s =
     s\<lparr>sourceLang := targetLang s,
       targetLang := sourceLang s,
       sourceText := targetText s,
       targetText := sourceText s\<rparr>"

text \<open>\<open>handleSpeak\<close> up to its \<open>await\<close>.\<close>

definition handleSpeak :: "session \<Rightarrow> jsstring \<Rightarrow> jsstring \<Rightarrow> session" where
  "handleSpeak s text lang =
     (if \<not> truthy (trim text) \<or> isSpeaking s then s
      else
        let s1 = s\<lparr>isSpeaking := True\<rparr> in
        (case speakText_call text lang of
           Inl success \<Rightarrow> s1\<lparr>isSpeaking := False\<rparr>
         | Inr request \<Rightarrow>
             s1\<lparr>speaking := speaking s1 @ [(text, lang)],
                stalled := stalled s1 @ [False],
                effects := effects s1 @ [Sent request]\<rparr>))"

text \<open>
  \<open>handleSpeak\<close> after its \<open>await\<close>: both the normal path and the \<open>catch\<close> clause
  clear the flag.
\<close>

definition handleSpeak_resume :: "session \<Rightarrow> bool settled \<Rightarrow> session" where
  "handleSpeak_resume s r =
     (case r of
        Returned success \<Rightarrow> s\<lparr>isSpeaking := False\<rparr>
      | Thrown e \<Rightarrow> s\<lparr>isSpeaking := False\<rparr>
      | Pending \<Rightarrow> s)"

subsection \<open>Events\<close>

text \<open>
  What can happen to a mounted component: the user types (the new value of the text
  area), picks the i-th language of a menu, presses swap or one of the two speaker
  buttons; time passes; a suspended translation or speech call settles, with what the
  remote service and the audio device did. A translation whose request is never
  answered is never resumed: such an event leaves the state as it is. A speech call
  whose request is never answered or whose playback never ends has stalled: what it did
  until then (the playback it started) is recorded, the call stays suspended for good,
  and no later event resumes it.
\<close>

datatype event =
    Type jsstring
  | SelectSource nat
  | SelectTarget nat
  | Swap
  | SpeakSource
  | SpeakTarget
  | Elapse nat
  | TranslationSettles nat "(jsstring option) outcome"
  | SpeechSettles nat "(part list option) outcome" "(real list \<Rightarrow> nat \<Rightarrow> playback) option"

definition remove_nth :: "nat \<Rightarrow> 'a list \<Rightarrow> 'a list" where
  "remove_nth i xs = take i xs @ drop (Suc i) xs"

text \<open>
  A timeout that is still pending fires: it leaves the host's list and its callback
  calls \<open>handleTranslate\<close> with the captured arguments.
\<close>

definition fire :: "timeout \<Rightarrow> session \<Rightarrow> session" where
  "fire t s =
     (if t \<in> set (timers s) then
        (case t of (tid, due, text, sLang, tLang) \<Rightarrow>
           let s0 = (clearTimeout tid s)\<lparr>clock := max (clock s) due\<rparr>
           in render s0 (handleTranslate s0 text sLang tLang))
      else s)"

text \<open>
  \<open>d\<close> ms pass: the timeouts due by then fire, in the order they were set (which is the
  order of their due times, every delay being 300 ms).
\<close>

definition elapse :: "nat \<Rightarrow> session \<Rightarrow> session" where
  "elapse d s =
     (fold fire (filter (\<lambda>t. fst (snd t) \<le> clock s + d) (timers s)) s)
       \<lparr>clock := clock s + d\<rparr>"

definition step :: "builtins \<Rightarrow> event \<Rightarrow> session \<Rightarrow> session" where
  "step host e s =
     (case e of
        Type v \<Rightarrow> render s (s\<lparr>sourceText := v\<rparr>)
      | SelectSource i \<Rightarrow>
          if i < length languages then render s (s\<lparr>sourceLang := code (languages ! i)\<rparr>) else s
      | SelectTarget i \<Rightarrow>
          if i < length languages then render s (s\<lparr>targetLang := code (languages ! i)\<rparr>) else s
      | Swap \<Rightarrow> render s (swapLanguages s)
      | SpeakSource \<Rightarrow> render s (handleSpeak s (sourceText s) (sourceLang s))
      | SpeakTarget \<Rightarrow> render s (handleSpeak s (targetText s) (targetLang s))
      | Elapse d \<Rightarrow> elapse d s
      | TranslationSettles i out \<Rightarrow>
          if i < length (translating s) then
            (case translating s ! i of (text, sLang, tLang) \<Rightarrow>
               (case translateText_resume (host_JSON_parse host) sLang out of
                  Pending \<Rightarrow> s
                | Thrown e \<Rightarrow> s\<lparr>translating := remove_nth i (translating s)\<rparr>
                | Returned result \<Rightarrow>
                    render s (handleTranslate_resume
                                (s\<lparr>translating := remove_nth i (translating s)\<rparr>) sLang result)))
          else s
      | SpeechSettles i out AudioContext \<Rightarrow>
          if i < length (speaking s) \<and> \<not> (i < length (stalled s) \<and> stalled s ! i) then
            (case speakText_resume (host_atob host) AudioContext out of
               (Pending, eff) \<Rightarrow>
                 s\<lparr>stalled := (stalled s)[i := True], effects := effects s @ eff\<rparr>
             | (r, eff) \<Rightarrow>
                 render s (handleSpeak_resume
                             (s\<lparr>speaking := remove_nth i (speaking s),
                                stalled := remove_nth i (stalled s),
                                effects := effects s @ eff\<rparr>) r))
          else s)"

text \<open>The values of \<open>useState\<close> and \<open>useRef\<close> at mount, and the state once the effect has run.\<close>

definition mounting :: session where
  "mounting =
     \<lparr>sourceText = [], targetText = [], sourceLang = ascii ''tr'', targetLang = ascii ''en'',
      isLoading = False, isSpeaking = False, debounceTimer = None,
      clock = 0, next_timer = 1, timers = [], translating = [], speaking = [], stalled = [],
      effects = []\<rparr>"

definition initial :: session where
  "initial = debounce_effect mounting"

definition run :: "builtins \<Rightarrow> event list \<Rightarrow> session \<Rightarrow> session" where
  "run host evs s = fold (step host) evs s"

inductive reachable :: "builtins \<Rightarrow> session \<Rightarrow> bool" for host :: builtins where
  reachable_initial: "reachable host initial"
| reachable_step: "reachable host s \<Longrightarrow> reachable host (step host e s)"

subsection \<open>A burst of keystrokes\<close>

text \<open>
  A keystroke is a change of the text area to a new value. \<open>keystrokes\<close> is the run in
  which each pair \<open>(gap, v)\<close> lets \<open>gap\<close> ms pass and then changes the text to \<open>v\<close>.
\<close>

fun keystrokes :: "(nat \<times> jsstring) list \<Rightarrow> event list" where
  "keystrokes [] = []"
| "keystrokes ((gap, v) # ks) = Elapse gap # Type v # keystrokes ks"

text \<open>
  The debounce invariant: the host holds at most one pending timeout, the one whose
  id is in \<open>debounceTimer\<close>, and ids are not 0.
\<close>

definition timer_inv :: "session \<Rightarrow> bool" where
  "timer_inv s =
     (next_timer s \<noteq> 0 \<and> length (timers s) \<le> 1 \<and>
      list_all (\<lambda>t. debounceTimer s = Some (fst t) \<and> fst t \<noteq> 0) (timers s))"

text \<open>
  The speech invariant: a call of \<open>handleSpeak\<close> is suspended exactly while the flag
  is set, and every suspended call has its stall mark.
\<close>

definition speaking_inv :: "session \<Rightarrow> bool" where
  "speaking_inv s =
     (length (speaking s) = (if isSpeaking s then 1 else 0) \<and>
      length (stalled s) = length (speaking s))"

text \<open>
  The state right after a keystroke: the pending timeout, if the text is not empty, was
  set just now for the values the effect depends on.
\<close>

definition just_typed :: "session \<Rightarrow> bool" where
  "just_typed s =
     (timer_inv s \<and>
      timers s =
        (if sourceText s = [] then []
         else [(the (debounceTimer s), clock s + 300,
                sourceText s, sourceLang s, targetLang s)]))"

text \<open>The number of playbacks started so far.\<close>

definition playback_starts :: "session \<Rightarrow> nat" where
  "playback_starts s =
     length (filter (\<lambda>e. case e of PlaybackStarted samples rate \<Rightarrow> True | _ \<Rightarrow> False)
       (effects s))"

subsection \<open>A host for the examples\<close>

text \<open>
  The response text \<open>{"translatedText":"tt","detectedLanguageCode":"dl"}\<close>, and
  \<open>JSON.parse\<close> and \<open>atob\<close> on the texts the examples use (elsewhere the example host
  lets them throw).
\<close>

definition sample_response :: "string \<Rightarrow> string \<Rightarrow> jsstring" where
  "sample_response tt dl =
     ascii (''{'' @ [CHR 0x22] @ ''translatedText'' @ [CHR 0x22] @ '':'' @
            [CHR 0x22] @ tt @ [CHR 0x22] @ '','' @
            [CHR 0x22] @ ''detectedLanguageCode'' @ [CHR 0x22] @ '':'' @
            [CHR 0x22] @ dl @ [CHR 0x22] @ ''}'')"

definition sample_host :: builtins where
  "sample_host =
     \<lparr>host_JSON_parse = map_of
        [(ascii ''{}'', ParsedValue None None),
         (ascii ''null'', ParsedNull),
         (sample_response ''hello'' ''tr'',
            ParsedValue (Some (ascii ''hello'')) (Some (ascii ''tr''))),
         (sample_response ''hello'' ''en'',
            ParsedValue (Some (ascii ''hello'')) (Some (ascii ''en''))),
         (sample_response ''hi'' ''tr'',
            ParsedValue (Some (ascii ''hi'')) (Some (ascii ''tr'')))],
      host_atob = map_of [(ascii ''AIA='', [0x00, 0x80])]\<rparr>"

section \<open>Properties of the translation client\<close>

lemma trim_empty_iff: "trim s = [] \<longleftrightarrow> list_all is_whitespace s"
proof
  assume "trim s = []"
  then have all: "\<forall>x\<in>set (dropWhile is_whitespace s). is_whitespace x"
    by (simp add: trim_def)
  have "dropWhile is_whitespace s = []"
  proof (rule ccontr)
    assume ne: "dropWhile is_whitespace s \<noteq> []"
    then have "\<not> is_whitespace (hd (dropWhile is_whitespace s))"
      by (rule hd_dropWhile)
    with ne all show False by (meson hd_in_set)
  qed
  then show "list_all is_whitespace s"
    by (simp add: list_all_iff)
next
  assume "list_all is_whitespace s"
  then have d: "dropWhile is_whitespace s = []"
    by (simp add: list_all_iff)
  show "trim s = []"
    unfolding trim_def d by simp
qed

lemma not_whitespace_m: "\<not> is_whitespace 0x6D"
  by (simp add: is_whitespace_def whitespace_units_def)

lemma trim_m: "trim [0x6D] = [0x6D]"
  by (simp add: trim_def not_whitespace_m)

lemma translate_catch_not_Thrown: "translate_catch sLang r \<noteq> Thrown e"
  by (cases r) (simp_all add: translate_catch_def)

lemma translateText_resume_failure:
  "out = Rejects \<or>
     (\<exists>rt. out = Resolves rt \<and> parse (or_else rt (ascii ''{}'')) \<in> {None, Some ParsedNull})
   \<Longrightarrow> translateText_resume parse sLang out =
       Returned \<lparr>translatedText = translation_error_text, detectedLanguageCode = sLang\<rparr>"
  by (auto simp: translateText_resume_def translate_try_def translate_catch_def)

text \<open>
  Claim C8. On a text that is empty or consists of whitespace only, \<open>translateText\<close>
  returns the empty translation with the requested source language as the detected one,
  for every language pair, every parser and every remote service, and it sends no request.
\<close>

theorem translateText_blank:
  "list_all is_whitespace text \<Longrightarrow>
   translateText parse generateContent text sLang tLang =
     (Returned \<lparr>translatedText = [], detectedLanguageCode = sLang\<rparr>, [])"
  by (simp add: translateText_def translateText_call_def truthy_def trim_empty_iff)

theorem translateText_blank_witness:
  "list_all is_whitespace [0x20, 0x09, 0x0A] \<and>
   translateText (\<lambda>t. None) (\<lambda>r. Rejects) [0x20, 0x09, 0x0A] (ascii ''tr'') (ascii ''en'') =
     (Returned \<lparr>translatedText = [], detectedLanguageCode = ascii ''tr''\<rparr>, [])"
  using translateText_blank
    [of "[0x20, 0x09, 0x0A]" "\<lambda>t. None" "\<lambda>r. Rejects" "ascii ''tr''" "ascii ''en''"]
  by (simp add: is_whitespace_def whitespace_units_def)

text \<open>
  Claim C4. \<open>translateText\<close> never throws, whatever the text, the parser and the remote
  service are. When it has sent its request and the remote call rejects, or the response
  text does not parse, or parses to \<open>null\<close> (so that reading a property throws), it
  returns the fixed error sentence as translated text and the requested source language
  as detected language.
\<close>

theorem translateText_never_throws:
  "fst (translateText parse generateContent text sLang tLang) \<noteq> Thrown e \<and>
   (translateText_call text sLang tLang = Inr request \<longrightarrow>
    (generateContent request = Rejects \<or>
     (\<exists>response_text. generateContent request = Resolves response_text \<and>
        parse (or_else response_text (ascii ''{}'')) \<in> {None, Some ParsedNull})) \<longrightarrow>
    translateText parse generateContent text sLang tLang =
      (Returned \<lparr>translatedText = translation_error_text, detectedLanguageCode = sLang\<rparr>,
       [Sent request]))"
proof (intro conjI impI)
  show "fst (translateText parse generateContent text sLang tLang) \<noteq> Thrown e"
    by (simp add: translateText_def translateText_resume_def translate_catch_not_Thrown
        split: sum.split)
next
  assume c: "translateText_call text sLang tLang = Inr request"
    and f: "generateContent request = Rejects \<or>
     (\<exists>response_text. generateContent request = Resolves response_text \<and>
        parse (or_else response_text (ascii ''{}'')) \<in> {None, Some ParsedNull})"
  from f have "translateText_resume parse sLang (generateContent request) =
      Returned \<lparr>translatedText = translation_error_text, detectedLanguageCode = sLang\<rparr>"
    by (rule translateText_resume_failure)
  with c show "translateText parse generateContent text sLang tLang =
      (Returned \<lparr>translatedText = translation_error_text, detectedLanguageCode = sLang\<rparr>,
       [Sent request])"
    by (simp add: translateText_def)
qed

theorem translateText_never_throws_witness:
  "translateText_call [0x6D] (ascii ''tr'') (ascii ''en'') =
     Inr \<lparr>model = ascii ''gemini-3-flash-preview'',
          contents = translate_prompt [0x6D] (ascii ''tr'') (ascii ''en''),
          config = JsonSchema\<rparr> \<and>
   translateText (\<lambda>t. None) (\<lambda>r. Resolves (Some (ascii ''oops'')))
       [0x6D] (ascii ''tr'') (ascii ''en'') =
     (Returned \<lparr>translatedText = translation_error_text, detectedLanguageCode = ascii ''tr''\<rparr>,
      [Sent \<lparr>model = ascii ''gemini-3-flash-preview'',
             contents = translate_prompt [0x6D] (ascii ''tr'') (ascii ''en''),
             config = JsonSchema\<rparr>])"
proof -
  have c: "translateText_call [0x6D] (ascii ''tr'') (ascii ''en'') =
     Inr \<lparr>model = ascii ''gemini-3-flash-preview'',
          contents = translate_prompt [0x6D] (ascii ''tr'') (ascii ''en''),
          config = JsonSchema\<rparr>"
    by (simp add: translateText_call_def trim_m truthy_def)
  show ?thesis
    using c translateText_never_throws
      [of "\<lambda>t. None" "\<lambda>r. Resolves (Some (ascii ''oops''))"
        "[0x6D]" "ascii ''tr''" "ascii ''en''" _
        "\<lparr>model = ascii ''gemini-3-flash-preview'',
          contents = translate_prompt [0x6D] (ascii ''tr'') (ascii ''en''),
          config = JsonSchema\<rparr>"]
    by simp
qed

section \<open>Properties of the audio decoder\<close>

lemma le_pair:
  "ucast (ucast s :: 8 word) OR push_bit 8 (ucast (ucast (drop_bit 8 s :: 16 word) :: 8 word))
     = (s :: 16 word)"
  by (rule bit_word_eqI) (auto simp: bit_simps)

lemma int16_pairs_bytes: "int16_pairs (pcm16_le_bytes ss) = ss"
  by (induction ss) (simp_all add: pcm16_le_bytes_def le_pair)

lemma length_pcm16_le_bytes: "length (pcm16_le_bytes ss) = 2 * length ss"
  by (induction ss) (simp_all add: pcm16_le_bytes_def)

lemma Int16Array_bytes: "Int16Array (pcm16_le_bytes ss) = Inr ss"
  by (simp add: Int16Array_def length_pcm16_le_bytes int16_pairs_bytes)

lemma pcm_to_float_bounds: "- 1 \<le> pcm_to_float s \<and> pcm_to_float s \<le> 32767 / 32768"
proof -
  have "- (2 ^ (LENGTH(16) - 1)) \<le> sint s" by (rule sint_ge)
  moreover have "sint s < 2 ^ (LENGTH(16) - 1)" by (rule sint_lt)
  ultimately have "- 32768 \<le> sint s" "sint s \<le> 32767" by simp_all
  then have "- 32768 \<le> real_of_int (sint s)" "real_of_int (sint s) \<le> 32767" by linarith+
  then show ?thesis by (simp add: pcm_to_float_def field_simps)
qed

lemma playPcmAudio_started:
  "PlaybackStarted samples rate \<in> set (snd (playPcmAudio AudioContext buffer sampleRate))
   \<Longrightarrow> \<exists>int16Array. Int16Array buffer = Inr int16Array \<and>
         samples = to_float32Array int16Array \<and> rate = sampleRate"
  by (auto simp: playPcmAudio_def Let_def split: option.splits sum.splits playback.splits)




text \<open>
  Claim C10. Whatever the byte buffer, every sample that \<open>playPcmAudio\<close> hands to the
  device lies in the half-open interval from -1 to 1: it is at least -1 and at most
  32767/32768. The bounds are attained: the bytes 00 80 are the sample -32768 and
  give -1, the bytes FF 7F are the sample 32767 and give 32767/32768.
\<close>

theorem playback_samples_range:
  "(PlaybackStarted samples rate \<in> set (snd (playPcmAudio AudioContext buffer sampleRate)) \<longrightarrow>
    x \<in> set samples \<longrightarrow> - 1 \<le> x \<and> x \<le> 32767 / 32768 \<and> x < 1) \<and>
   Int16Array [0x00, 0x80] = Inr [- 32768] \<and> to_float32Array [- 32768] = [- 1] \<and>
   Int16Array [0xFF, 0x7F] = Inr [32767] \<and> to_float32Array [32767] = [32767 / 32768]"
proof (intro conjI impI)
  assume "PlaybackStarted samples rate \<in> set (snd (playPcmAudio AudioContext buffer sampleRate))"
    and x: "x \<in> set samples"
  then obtain int16Array where "samples = to_float32Array int16Array"
    using playPcmAudio_started by blast
  with x obtain s where "x = pcm_to_float s"
    by (auto simp: to_float32Array_def)
  then show "- 1 \<le> x" "x \<le> 32767 / 32768" "x < 1"
    using pcm_to_float_bounds [of s] by simp_all
qed (simp_all add: Int16Array_def to_float32Array_def pcm_to_float_def)

theorem playback_samples_range_witness:
  "PlaybackStarted [- 1, 32767 / 32768] 24000
     \<in> set (snd (playPcmAudio (Some (\<lambda>f r. Ended)) [0x00, 0x80, 0xFF, 0x7F] 24000)) \<and>
   (32767 / 32768 :: real) \<in> set [- 1, 32767 / 32768] \<and>
   - 1 \<le> (32767 / 32768 :: real) \<and> (32767 / 32768 :: real) < 1"
proof -
  have m: "PlaybackStarted [- 1, 32767 / 32768] 24000
     \<in> set (snd (playPcmAudio (Some (\<lambda>f r. Ended)) [0x00, 0x80, 0xFF, 0x7F] 24000))"
    by (simp add: playPcmAudio_def Int16Array_def to_float32Array_def pcm_to_float_def)
  show ?thesis
    using m playback_samples_range [of "[- 1, 32767 / 32768]" 24000 "Some (\<lambda>f r. Ended)"
       "[0x00, 0x80, 0xFF, 0x7F]" 24000 "32767 / 32768"]
    by simp
qed

text \<open>
  Claim C9, as stated: any sequence of float samples, encoded to 16-bit PCM and converted
  back, comes out within 1/32768 of the original. It fails for a sample outside the
  range of the format: no sequence of 16-bit samples converts to within 1/32768 of the
  one-sample sequence 2 (the encoder above takes 2 to 32767, which converts to
  32767/32768).
\<close>

theorem pcm_roundtrip_counterexample:
  "\<not> (\<exists>ss. list_all2 (\<lambda>x y. \<bar>y - x\<bar> \<le> 1 / 32768) [2] (to_float32Array ss)) \<and>
   to_float32Array [encode_pcm16 2] = [32767 / 32768]"
proof
  show "\<not> (\<exists>ss. list_all2 (\<lambda>x y. \<bar>y - x\<bar> \<le> 1 / 32768) [2] (to_float32Array ss))"
  proof
    assume "\<exists>ss. list_all2 (\<lambda>x y. \<bar>y - x\<bar> \<le> 1 / 32768) [2] (to_float32Array ss)"
    then obtain ss where
      "list_all2 (\<lambda>x y. \<bar>y - x\<bar> \<le> 1 / 32768) [2] (to_float32Array ss)" ..
    then obtain s where "\<bar>pcm_to_float s - 2\<bar> \<le> 1 / 32768"
      by (auto simp: to_float32Array_def list_all2_Cons1)
    with pcm_to_float_bounds [of s] show False by simp
  qed
  show "to_float32Array [encode_pcm16 2] = [32767 / 32768]"
    by (simp add: to_float32Array_def pcm_to_float_def encode_pcm16_def)
qed

lemma sint_encode_pcm16:
  "sint (encode_pcm16 x) = max (- 32768) (min 32767 (round (32768 * x)))"
proof -
  let ?c = "max (- 32768) (min 32767 (round (32768 * x)))"
  have "- (2 ^ (LENGTH(16) - 1)) \<le> ?c" and "?c < 2 ^ (LENGTH(16) - 1)"
    by simp_all
  then have "signed_take_bit (LENGTH(16) - 1) ?c = ?c"
    by (rule signed_take_bit_int_eq_self)
  then show ?thesis
    by (simp only: encode_pcm16_def sint_sbintrunc')
qed

lemma encode_pcm16_step:
  assumes "- 1 \<le> x" and "x \<le> 1"
  shows "\<bar>32768 * x - real_of_int (sint (encode_pcm16 x))\<bar> \<le> 1"
proof -
  let ?y = "32768 * x"
  have r: "\<bar>real_of_int (round ?y) - ?y\<bar> \<le> 1 / 2"
    by (rule of_int_round_abs_le)
  from assms have y: "- 32768 \<le> ?y" "?y \<le> 32768" by simp_all
  have lo: "- 32768 \<le> round ?y"
    using y(1) round_mono [of "- 32768" ?y] by simp
  have hi: "round ?y \<le> 32768"
    using y(2) round_mono [of ?y 32768] by simp
  show ?thesis
  proof (cases "round ?y \<le> 32767")
    case True
    with lo have "sint (encode_pcm16 x) = round ?y"
      by (simp add: sint_encode_pcm16)
    with r show ?thesis by linarith
  next
    case False
    with hi have top: "round ?y = 32768" by simp
    then have s: "real_of_int (sint (encode_pcm16 x)) = 32767"
      by (simp add: sint_encode_pcm16)
    from top have "real_of_int (round ?y) = 32768" by simp
    with r have "32768 - ?y \<le> 1 / 2" by linarith
    with y(2) s show ?thesis by linarith
  qed
qed

lemma pcm_to_float_close:
  "\<bar>32768 * x - real_of_int (sint s)\<bar> \<le> 1 \<Longrightarrow> \<bar>pcm_to_float s - x\<bar> \<le> 1 / 32768"
  by (simp add: pcm_to_float_def field_simps abs_le_iff)

text \<open>
  Claim C9, amended. The conversion reads the payload as 16-bit little-endian samples and
  maps each sample \<open>s\<close> to \<open>s / 32768\<close>. For every sequence of float samples between
  -1 and 1, encoding each sample by scaling, rounding and clamping, laying the samples
  out as little-endian bytes and converting them back yields, sample by sample, a value
  within 1/32768 of the original. The same holds for any encoding that takes each
  sample \<open>x\<close> to a 16-bit sample within one step of \<open>32768 * x\<close>.
\<close>

theorem pcm_roundtrip:
  "Int16Array (pcm16_le_bytes ss) = Inr ss \<and>
   to_float32Array ss = map (\<lambda>s. real_of_int (sint s) / 32768) ss \<and>
   (list_all2 (\<lambda>x s. \<bar>32768 * x - real_of_int (sint s)\<bar> \<le> 1) xs ss \<longrightarrow>
      list_all2 (\<lambda>x y. \<bar>y - x\<bar> \<le> 1 / 32768) xs (to_float32Array ss)) \<and>
   (list_all (\<lambda>x. - 1 \<le> x \<and> x \<le> 1) xs \<longrightarrow>
      Int16Array (pcm16_le_bytes (map encode_pcm16 xs)) = Inr (map encode_pcm16 xs) \<and>
      list_all2 (\<lambda>x y. \<bar>y - x\<bar> \<le> 1 / 32768) xs
        (to_float32Array (map encode_pcm16 xs)))"
proof (intro conjI impI)
  show "Int16Array (pcm16_le_bytes ss) = Inr ss" by (rule Int16Array_bytes)
  show "to_float32Array ss = map (\<lambda>s. real_of_int (sint s) / 32768) ss"
    by (simp add: to_float32Array_def pcm_to_float_def)
  show "Int16Array (pcm16_le_bytes (map encode_pcm16 xs)) = Inr (map encode_pcm16 xs)"
    by (rule Int16Array_bytes)
next
  assume "list_all2 (\<lambda>x s. \<bar>32768 * x - real_of_int (sint s)\<bar> \<le> 1) xs ss"
  then show "list_all2 (\<lambda>x y. \<bar>y - x\<bar> \<le> 1 / 32768) xs (to_float32Array ss)"
    unfolding to_float32Array_def list_all2_map2
    by (rule list_all2_mono) (rule pcm_to_float_close)
next
  assume "list_all (\<lambda>x. - 1 \<le> x \<and> x \<le> 1) xs"
  then have range: "- 1 \<le> x \<and> x \<le> 1" if "x \<in> set xs" for x
    using that by (simp add: list_all_iff)
  have "\<bar>pcm_to_float (encode_pcm16 x) - x\<bar> \<le> 1 / 32768" if "x \<in> set xs" for x
  proof (rule pcm_to_float_close)
    from range [OF that] have "- 1 \<le> x" and "x \<le> 1" by simp_all
    then show "\<bar>32768 * x - real_of_int (sint (encode_pcm16 x))\<bar> \<le> 1"
      by (rule encode_pcm16_step)
  qed
  then show "list_all2 (\<lambda>x y. \<bar>y - x\<bar> \<le> 1 / 32768) xs
      (to_float32Array (map encode_pcm16 xs))"
    by (simp add: to_float32Array_def list_all2_map2 list_all2_same)
qed

theorem pcm_roundtrip_witness:
  "list_all (\<lambda>x. - 1 \<le> x \<and> x \<le> 1) [1 / 2, - 1, 1 :: real] \<and>
   map encode_pcm16 [1 / 2, - 1, 1] = [16384, - 32768, 32767] \<and>
   list_all2 (\<lambda>x s. \<bar>32768 * x - real_of_int (sint s)\<bar> \<le> 1)
     [1 / 2, - 1, 1] [16384, - 32768, 32767 :: 16 word] \<and>
   Int16Array (pcm16_le_bytes [16384, - 32768, 32767]) = Inr [16384, - 32768, 32767] \<and>
   to_float32Array [16384, - 32768, 32767] = [1 / 2, - 1, 32767 / 32768] \<and>
   list_all2 (\<lambda>x y. \<bar>y - x\<bar> \<le> 1 / 32768) [1 / 2, - 1, 1]
     (to_float32Array [16384, - 32768, 32767])"
proof -
  have e: "map encode_pcm16 [1 / 2, - 1, 1] = [16384, - 32768, 32767]"
    by (simp add: encode_pcm16_def)
  have r: "list_all (\<lambda>x. - 1 \<le> x \<and> x \<le> 1) [1 / 2, - 1, 1 :: real]"
    by simp
  from e r pcm_roundtrip [of "[16384, - 32768, 32767]" "[1 / 2, - 1, 1]"]
  show ?thesis
    by (simp add: to_float32Array_def pcm_to_float_def)
qed

section \<open>Properties of the speech client\<close>













section \<open>Invariants of the session controller\<close>

subsection \<open>What the handlers leave alone\<close>

lemma handleTranslate_eq:
  "handleTranslate s text sLang tLang =
     (if trim text = [] then s\<lparr>targetText := []\<rparr>
      else s\<lparr>isLoading := True,
             translating := translating s @ [(text, sLang, tLang)],
             effects := effects s @
               [Sent \<lparr>model = ascii ''gemini-3-flash-preview'',
                      contents = translate_prompt text sLang tLang,
                      config = JsonSchema\<rparr>]\<rparr>)"
  by (simp add: handleTranslate_def translateText_call_def truthy_def Let_def)

lemma handleSpeak_eq:
  "handleSpeak s text lang =
     (if trim text = [] \<or> isSpeaking s then s
      else s\<lparr>isSpeaking := True,
             speaking := speaking s @ [(text, lang)],
             stalled := stalled s @ [False],
             effects := effects s @
               [Sent \<lparr>model = ascii ''gemini-2.5-flash-preview-tts'',
                      contents = ascii ''Say this clearly: '' @ text,
                      config = AudioVoice (ascii ''Kore'')\<rparr>]\<rparr>)"
  by (simp add: handleSpeak_def speakText_call_def truthy_def Let_def)

lemma clear_debounce_fields:
  "sourceText (clear_debounce s) = sourceText s"
  "targetText (clear_debounce s) = targetText s"
  "sourceLang (clear_debounce s) = sourceLang s"
  "targetLang (clear_debounce s) = targetLang s"
  "isLoading (clear_debounce s) = isLoading s"
  "isSpeaking (clear_debounce s) = isSpeaking s"
  "debounceTimer (clear_debounce s) = debounceTimer s"
  "clock (clear_debounce s) = clock s"
  "next_timer (clear_debounce s) = next_timer s"
  "translating (clear_debounce s) = translating s"
  "speaking (clear_debounce s) = speaking s"
  "stalled (clear_debounce s) = stalled s"
  "effects (clear_debounce s) = effects s"
  by (simp_all add: clear_debounce_def clearTimeout_def split: option.split)

lemma debounce_effect_fields:
  "sourceText (debounce_effect s) = sourceText s"
  "sourceLang (debounce_effect s) = sourceLang s"
  "targetLang (debounce_effect s) = targetLang s"
  "isLoading (debounce_effect s) = isLoading s"
  "isSpeaking (debounce_effect s) = isSpeaking s"
  "clock (debounce_effect s) = clock s"
  "translating (debounce_effect s) = translating s"
  "speaking (debounce_effect s) = speaking s"
  "stalled (debounce_effect s) = stalled s"
  "effects (debounce_effect s) = effects s"
  by (simp_all add: debounce_effect_def Let_def clear_debounce_fields)

lemma debounce_effect_targetText:
  "targetText (debounce_effect s) = (if sourceText s = [] then [] else targetText s)"
  by (simp add: debounce_effect_def Let_def clear_debounce_fields truthy_def)

lemma render_fields:
  "sourceText (render prev s) = sourceText s"
  "sourceLang (render prev s) = sourceLang s"
  "targetLang (render prev s) = targetLang s"
  "isLoading (render prev s) = isLoading s"
  "isSpeaking (render prev s) = isSpeaking s"
  "clock (render prev s) = clock s"
  "translating (render prev s) = translating s"
  "speaking (render prev s) = speaking s"
  "stalled (render prev s) = stalled s"
  "effects (render prev s) = effects s"
  by (simp_all add: render_def debounce_effect_fields clear_debounce_fields)

lemma render_targetText:
  "targetText (render prev s) =
     (if deps s \<noteq> deps prev \<and> sourceText s = [] then [] else targetText s)"
  by (simp add: render_def debounce_effect_targetText clear_debounce_fields)

lemma render_same_deps: "deps s = deps prev \<Longrightarrow> render prev s = s"
  by (simp add: render_def)

lemma deps_handleTranslate: "deps (handleTranslate s text sLang tLang) = deps s"
  by (simp add: handleTranslate_eq deps_def)

lemma deps_handleSpeak: "deps (handleSpeak s text lang) = deps s"
  by (simp add: handleSpeak_eq deps_def)

lemma fire_eq:
  "fire t s =
     (if t \<in> set (timers s)
      then handleTranslate ((clearTimeout (fst t) s)\<lparr>clock := max (clock s) (fst (snd t))\<rparr>)
             (fst (snd (snd t))) (fst (snd (snd (snd t)))) (snd (snd (snd (snd t))))
      else s)"
  by (cases t) (simp add: fire_def Let_def render_same_deps deps_handleTranslate)

subsection \<open>At most one pending timeout\<close>

lemma timer_inv_cong:
  "timers s' = timers s \<Longrightarrow> debounceTimer s' = debounceTimer s \<Longrightarrow>
   next_timer s' = next_timer s \<Longrightarrow> timer_inv s' = timer_inv s"
  by (simp add: timer_inv_def)

lemma timers_clear_debounce: "timer_inv s \<Longrightarrow> timers (clear_debounce s) = []"
  by (cases "timers s")
    (auto simp: timer_inv_def clear_debounce_def clearTimeout_def split: option.split)

lemma timer_inv_clear_debounce: "timer_inv s \<Longrightarrow> timer_inv (clear_debounce s)"
  using timers_clear_debounce [of s]
  by (simp add: timer_inv_def clear_debounce_fields)

lemma timer_inv_debounce_effect: "timer_inv s \<Longrightarrow> timer_inv (debounce_effect s)"
  using timers_clear_debounce [of s]
  by (simp add: timer_inv_def debounce_effect_def Let_def clear_debounce_fields)

lemma timer_inv_render: "timer_inv s \<Longrightarrow> timer_inv (render prev s)"
  by (simp add: render_def timer_inv_debounce_effect timer_inv_clear_debounce)

lemma timer_inv_handleTranslate:
  "timer_inv (handleTranslate s text sLang tLang) = timer_inv s"
  by (rule timer_inv_cong) (simp_all add: handleTranslate_eq)

lemma timer_inv_handleTranslate_resume:
  "timer_inv (handleTranslate_resume s sLang result) = timer_inv s"
  by (rule timer_inv_cong)
    (simp_all add: handleTranslate_resume_def Let_def split: option.split)

lemma timer_inv_handleSpeak: "timer_inv (handleSpeak s text lang) = timer_inv s"
  by (rule timer_inv_cong) (simp_all add: handleSpeak_eq)

lemma timer_inv_handleSpeak_resume: "timer_inv (handleSpeak_resume s r) = timer_inv s"
  by (rule timer_inv_cong) (simp_all add: handleSpeak_resume_def split: settled.split)

lemma timer_inv_fire: "timer_inv s \<Longrightarrow> timer_inv (fire t s)"
proof -
  assume inv: "timer_inv s"
  show "timer_inv (fire t s)"
  proof (cases "t \<in> set (timers s)")
    case False
    with inv show ?thesis by (simp add: fire_eq)
  next
    case True
    with inv have "timers s = [t]" and "fst t \<noteq> 0"
      by (cases "timers s"; auto simp: timer_inv_def)+
    with inv True show ?thesis
      by (simp add: fire_eq timer_inv_handleTranslate)
        (simp add: timer_inv_def clearTimeout_def)
  qed
qed

lemma timer_inv_fold_fire: "timer_inv s \<Longrightarrow> timer_inv (fold fire ts s)"
  by (induction ts arbitrary: s) (simp_all add: timer_inv_fire)

lemma timer_inv_elapse: "timer_inv s \<Longrightarrow> timer_inv (elapse d s)"
proof -
  assume "timer_inv s"
  then have "timer_inv (fold fire (filter (\<lambda>t. fst (snd t) \<le> clock s + d) (timers s)) s)"
    by (rule timer_inv_fold_fire)
  then show ?thesis
    by (simp add: elapse_def timer_inv_def)
qed

lemma timer_inv_step: "timer_inv s \<Longrightarrow> timer_inv (step host e s)"
proof (cases e)
  case (Type v)
  assume "timer_inv s"
  then have "timer_inv (s\<lparr>sourceText := v\<rparr>)" by (simp add: timer_inv_def)
  with Type show ?thesis by (simp add: step_def timer_inv_render)
next
  case (SelectSource i)
  assume inv: "timer_inv s"
  then have "timer_inv (s\<lparr>sourceLang := code (languages ! i)\<rparr>)" by (simp add: timer_inv_def)
  with SelectSource inv show ?thesis by (simp add: step_def timer_inv_render)
next
  case (SelectTarget i)
  assume inv: "timer_inv s"
  then have "timer_inv (s\<lparr>targetLang := code (languages ! i)\<rparr>)" by (simp add: timer_inv_def)
  with SelectTarget inv show ?thesis by (simp add: step_def timer_inv_render)
next
  case Swap
  assume "timer_inv s"
  then have "timer_inv (swapLanguages s)" by (simp add: timer_inv_def swapLanguages_def)
  with Swap show ?thesis by (simp add: step_def timer_inv_render)
next
  case SpeakSource
  assume "timer_inv s"
  with SpeakSource show ?thesis
    by (simp add: step_def timer_inv_render timer_inv_handleSpeak)
next
  case SpeakTarget
  assume "timer_inv s"
  with SpeakTarget show ?thesis
    by (simp add: step_def timer_inv_render timer_inv_handleSpeak)
next
  case (Elapse d)
  assume "timer_inv s"
  with Elapse show ?thesis by (simp add: step_def timer_inv_elapse)
next
  case (TranslationSettles i out)
  assume inv: "timer_inv s"
  then have r: "timer_inv (s\<lparr>translating := remove_nth i (translating s)\<rparr>)"
    by (simp add: timer_inv_def)
  with TranslationSettles inv show ?thesis
    by (simp add: step_def timer_inv_render timer_inv_handleTranslate_resume
        split: prod.split settled.split)
next
  case (SpeechSettles i out AudioContext)
  assume inv: "timer_inv s"
  then have r: "timer_inv (s\<lparr>speaking := remove_nth i (speaking s),
      stalled := remove_nth i (stalled s), effects := effects s @ eff\<rparr>)"
    and p: "timer_inv (s\<lparr>stalled := (stalled s)[i := True], effects := effects s @ eff\<rparr>)"
    for eff
    by (simp_all add: timer_inv_def)
  with SpeechSettles inv show ?thesis
    by (simp add: step_def timer_inv_render timer_inv_handleSpeak_resume
        split: prod.split settled.split)
qed

lemma timer_inv_initial: "timer_inv initial"
  by (simp add: initial_def mounting_def debounce_effect_def clear_debounce_def
      timer_inv_def truthy_def Let_def)

lemma reachable_timer_inv: "reachable host s \<Longrightarrow> timer_inv s"
  by (induction rule: reachable.induct) (simp_all add: timer_inv_initial timer_inv_step)

subsection \<open>At most one speech call in flight\<close>

lemma speaking_inv_cong:
  "speaking s' = speaking s \<Longrightarrow> isSpeaking s' = isSpeaking s \<Longrightarrow>
   stalled s' = stalled s \<Longrightarrow> speaking_inv s' = speaking_inv s"
  by (simp add: speaking_inv_def)

lemma speaking_inv_render: "speaking_inv (render prev s) = speaking_inv s"
  by (rule speaking_inv_cong) (simp_all add: render_fields)

lemma speaking_inv_handleTranslate:
  "speaking_inv (handleTranslate s text sLang tLang) = speaking_inv s"
  by (rule speaking_inv_cong) (simp_all add: handleTranslate_eq)

lemma speaking_inv_handleTranslate_resume:
  "speaking_inv (handleTranslate_resume s sLang result) = speaking_inv s"
  by (rule speaking_inv_cong)
    (simp_all add: handleTranslate_resume_def Let_def split: option.split)

lemma speaking_inv_fire: "speaking_inv (fire t s) = speaking_inv s"
  by (simp add: fire_eq speaking_inv_handleTranslate)
    (simp add: speaking_inv_def clearTimeout_def)

lemma speaking_inv_fold_fire: "speaking_inv (fold fire ts s) = speaking_inv s"
  by (induction ts arbitrary: s) (simp_all add: speaking_inv_fire)

lemma speaking_inv_elapse: "speaking_inv (elapse d s) = speaking_inv s"
proof -
  have "speaking_inv (elapse d s) =
      speaking_inv (fold fire (filter (\<lambda>t. fst (snd t) \<le> clock s + d) (timers s)) s)"
    by (simp add: elapse_def speaking_inv_def)
  then show ?thesis by (simp add: speaking_inv_fold_fire)
qed

lemma speaking_inv_handleSpeak: "speaking_inv s \<Longrightarrow> speaking_inv (handleSpeak s text lang)"
  by (simp add: handleSpeak_eq speaking_inv_def split: if_splits)

lemma remove_nth_single: "length xs = 1 \<Longrightarrow> i < length xs \<Longrightarrow> remove_nth i xs = []"
  by (cases xs) (simp_all add: remove_nth_def)

lemma speaking_inv_step: "speaking_inv s \<Longrightarrow> speaking_inv (step host e s)"
proof (cases e)
  case (Type v)
  assume "speaking_inv s"
  then have "speaking_inv (s\<lparr>sourceText := v\<rparr>)" by (simp add: speaking_inv_def)
  with Type show ?thesis by (simp add: step_def speaking_inv_render)
next
  case (SelectSource i)
  assume inv: "speaking_inv s"
  then have "speaking_inv (s\<lparr>sourceLang := code (languages ! i)\<rparr>)"
    by (simp add: speaking_inv_def)
  with SelectSource inv show ?thesis by (simp add: step_def speaking_inv_render)
next
  case (SelectTarget i)
  assume inv: "speaking_inv s"
  then have "speaking_inv (s\<lparr>targetLang := code (languages ! i)\<rparr>)"
    by (simp add: speaking_inv_def)
  with SelectTarget inv show ?thesis by (simp add: step_def speaking_inv_render)
next
  case Swap
  assume "speaking_inv s"
  then have "speaking_inv (swapLanguages s)" by (simp add: speaking_inv_def swapLanguages_def)
  with Swap show ?thesis by (simp add: step_def speaking_inv_render)
next
  case SpeakSource
  assume "speaking_inv s"
  with SpeakSource show ?thesis
    by (simp add: step_def speaking_inv_render speaking_inv_handleSpeak)
next
  case SpeakTarget
  assume "speaking_inv s"
  with SpeakTarget show ?thesis
    by (simp add: step_def speaking_inv_render speaking_inv_handleSpeak)
next
  case (Elapse d)
  assume "speaking_inv s"
  with Elapse show ?thesis by (simp add: step_def speaking_inv_elapse)
next
  case (TranslationSettles i out)
  assume inv: "speaking_inv s"
  then have r: "speaking_inv (s\<lparr>translating := remove_nth i (translating s)\<rparr>)"
    by (simp add: speaking_inv_def)
  with TranslationSettles inv show ?thesis
    by (simp add: step_def speaking_inv_render speaking_inv_handleTranslate_resume
        split: prod.split settled.split)
next
  case (SpeechSettles i out AudioContext)
  assume inv: "speaking_inv s"
  show ?thesis
  proof (cases "i < length (speaking s)")
    case False
    with SpeechSettles inv show ?thesis by (simp add: step_def)
  next
    case True
    with inv have one: "length (speaking s) = 1" and flag: "isSpeaking s"
      and marks: "length (stalled s) = 1"
      by (auto simp: speaking_inv_def split: if_splits)
    from one True have gone: "remove_nth i (speaking s) = []"
      by (rule remove_nth_single)
    from marks one True have unmarked: "remove_nth i (stalled s) = []"
      by (simp add: remove_nth_single)
    from SpeechSettles True inv gone unmarked show ?thesis
      by (simp add: step_def speaking_inv_render split: prod.split settled.split)
        (simp add: speaking_inv_def handleSpeak_resume_def)
  qed
qed

lemma speaking_inv_initial: "speaking_inv initial"
  by (simp add: initial_def mounting_def debounce_effect_def clear_debounce_def
      speaking_inv_def truthy_def Let_def)

lemma reachable_speaking_inv: "reachable host s \<Longrightarrow> speaking_inv s"
  by (induction rule: reachable.induct) (simp_all add: speaking_inv_initial speaking_inv_step)

section \<open>Properties of the session controller\<close>

text \<open>
  Claim C7. While a speech call is in flight, pressing a speaker button does nothing:
  \<open>handleSpeak\<close> returns the state as it is, so the speaking flag, the suspended call
  and the number of playbacks started are unchanged and no request is sent. In every
  reachable state at most one call of \<open>handleSpeak\<close> is suspended, and one is suspended
  exactly when the speaking flag is set.
\<close>

theorem handleSpeak_while_speaking:
  "(isSpeaking s \<longrightarrow>
      handleSpeak s text lang = s \<and>
      step host SpeakSource s = s \<and> step host SpeakTarget s = s \<and>
      playback_starts (handleSpeak s text lang) = playback_starts s) \<and>
   (reachable host s \<longrightarrow>
      length (speaking s) \<le> 1 \<and> (isSpeaking s \<longleftrightarrow> speaking s \<noteq> []))"
proof (intro conjI impI)
  assume sp: "isSpeaking s"
  then show h: "handleSpeak s text lang = s"
    by (simp add: handleSpeak_eq)
  from sp show "step host SpeakSource s = s"
    by (simp add: step_def handleSpeak_eq render_same_deps)
  from sp show "step host SpeakTarget s = s"
    by (simp add: step_def handleSpeak_eq render_same_deps)
  from h show "playback_starts (handleSpeak s text lang) = playback_starts s"
    by simp
next
  assume "reachable host s"
  then have inv: "speaking_inv s" by (rule reachable_speaking_inv)
  then show "length (speaking s) \<le> 1"
    by (simp add: speaking_inv_def split: if_splits)
  from inv show "isSpeaking s \<longleftrightarrow> speaking s \<noteq> []"
    by (auto simp: speaking_inv_def split: if_splits)
qed

theorem handleSpeak_while_speaking_witness:
  "isSpeaking (run sample_host [Type [0x6D], SpeakSource] initial) \<and>
   reachable sample_host (run sample_host [Type [0x6D], SpeakSource] initial) \<and>
   speaking (run sample_host [Type [0x6D], SpeakSource] initial) = [([0x6D], ascii ''tr'')] \<and>
   run sample_host [Type [0x6D], SpeakSource, SpeakSource, SpeakTarget] initial =
     run sample_host [Type [0x6D], SpeakSource] initial"
proof -
  let ?s = "run sample_host [Type [0x6D], SpeakSource] initial"
  have r: "reachable sample_host ?s"
    by (simp add: run_def reachable_initial reachable_step)
  have t: "sourceText (step sample_host (Type [0x6D]) initial) = [0x6D]"
    by (simp add: step_def render_fields)
  have f: "\<not> isSpeaking (step sample_host (Type [0x6D]) initial)"
    by (simp add: step_def render_fields initial_def debounce_effect_fields mounting_def)
  have q: "speaking (step sample_host (Type [0x6D]) initial) = []"
    by (simp add: step_def render_fields initial_def debounce_effect_fields mounting_def)
  have l: "sourceLang (step sample_host (Type [0x6D]) initial) = ascii ''tr''"
    by (simp add: step_def render_fields initial_def debounce_effect_fields mounting_def)
  have i: "isSpeaking ?s"
    using t f by (simp add: run_def step_def [of _ SpeakSource] render_fields handleSpeak_eq trim_m)
  have k: "speaking ?s = [([0x6D], ascii ''tr'')]"
    using t f q l
    by (simp add: run_def step_def [of _ SpeakSource] render_fields handleSpeak_eq trim_m)
  from i r k handleSpeak_while_speaking [of ?s _ _ sample_host]
  show ?thesis by (simp add: run_def)
qed

subsection \<open>Debounce\<close>

lemma clear_debounce_eq: "timer_inv s \<Longrightarrow> clear_debounce s = s\<lparr>timers := []\<rparr>"
proof -
  assume inv: "timer_inv s"
  then have "timers (clear_debounce s) = []" by (rule timers_clear_debounce)
  then show ?thesis
    by (intro session.equality) (simp_all add: clear_debounce_fields)
qed

lemma render_changed:
  "timer_inv s \<Longrightarrow> deps s \<noteq> deps prev \<Longrightarrow>
   render prev s =
     (if sourceText s = [] then s\<lparr>targetText := [], timers := []\<rparr>
      else s\<lparr>debounceTimer := Some (next_timer s),
             timers := [(next_timer s, clock s + 300, sourceText s, sourceLang s, targetLang s)],
             next_timer := Suc (next_timer s)\<rparr>)"
proof -
  assume inv: "timer_inv s" and d: "deps s \<noteq> deps prev"
  have c: "clear_debounce s = s\<lparr>timers := []\<rparr>"
    using inv by (rule clear_debounce_eq)
  have "timer_inv (s\<lparr>timers := []\<rparr>)"
    using inv by (simp add: timer_inv_def)
  then have c2: "clear_debounce (s\<lparr>timers := []\<rparr>) = s\<lparr>timers := []\<rparr>"
    using clear_debounce_eq [of "s\<lparr>timers := []\<rparr>"] by simp
  show ?thesis
    using d by (simp add: render_def c debounce_effect_def c2 Let_def truthy_def)
qed

lemma step_Type_changed:
  "timer_inv s \<Longrightarrow> v \<noteq> sourceText s \<Longrightarrow>
   step host (Type v) s =
     (if v = [] then s\<lparr>sourceText := [], targetText := [], timers := []\<rparr>
      else s\<lparr>sourceText := v, debounceTimer := Some (next_timer s),
             timers := [(next_timer s, clock s + 300, v, sourceLang s, targetLang s)],
             next_timer := Suc (next_timer s)\<rparr>)"
proof -
  assume inv: "timer_inv s" and v: "v \<noteq> sourceText s"
  from inv have i: "timer_inv (s\<lparr>sourceText := v\<rparr>)" by (simp add: timer_inv_def)
  from v have d: "deps (s\<lparr>sourceText := v\<rparr>) \<noteq> deps s" by (simp add: deps_def)
  show ?thesis
    by (simp add: step_def render_changed [OF i d])
qed

lemma elapse_none:
  "list_all (\<lambda>t. clock s + d < fst (snd t)) (timers s) \<Longrightarrow>
   elapse d s = s\<lparr>clock := clock s + d\<rparr>"
proof -
  assume "list_all (\<lambda>t. clock s + d < fst (snd t)) (timers s)"
  then have "filter (\<lambda>t. fst (snd t) \<le> clock s + d) (timers s) = []"
    by (auto simp: list_all_iff filter_empty_conv)
  then show ?thesis by (simp add: elapse_def)
qed

lemma elapse_one:
  "timers s = [(tid, due, text, sLang, tLang)] \<Longrightarrow> due \<le> clock s + d \<Longrightarrow>
   elapse d s =
     (handleTranslate (s\<lparr>timers := [], clock := max (clock s) due\<rparr>) text sLang tLang)
       \<lparr>clock := clock s + d\<rparr>"
  by (simp add: elapse_def fire_eq clearTimeout_def)

lemma just_typed_after_Type:
  "timer_inv s \<Longrightarrow> v \<noteq> sourceText s \<Longrightarrow> just_typed (step host (Type v) s)"
  by (simp add: step_Type_changed just_typed_def timer_inv_def)

lemma quiet_then_Type:
  assumes j: "just_typed s" and g: "gap < 300" and v: "v \<noteq> sourceText s"
  shows "just_typed (step host (Type v) (step host (Elapse gap) s))"
    and "effects (step host (Type v) (step host (Elapse gap) s)) = effects s"
    and "sourceLang (step host (Type v) (step host (Elapse gap) s)) = sourceLang s"
    and "targetLang (step host (Type v) (step host (Elapse gap) s)) = targetLang s"
    and "sourceText (step host (Type v) (step host (Elapse gap) s)) = v"
proof -
  from j g have "list_all (\<lambda>t. clock s + gap < fst (snd t)) (timers s)"
    by (simp add: just_typed_def)
  then have e: "step host (Elapse gap) s = s\<lparr>clock := clock s + gap\<rparr>"
    by (simp add: step_def elapse_none)
  from j have "timer_inv s" by (simp add: just_typed_def)
  then have i: "timer_inv (s\<lparr>clock := clock s + gap\<rparr>)"
    by (simp add: timer_inv_def)
  from v have v': "v \<noteq> sourceText (s\<lparr>clock := clock s + gap\<rparr>)" by simp
  show "just_typed (step host (Type v) (step host (Elapse gap) s))"
    unfolding e using i v' by (rule just_typed_after_Type)
  show "effects (step host (Type v) (step host (Elapse gap) s)) = effects s"
    unfolding e by (simp add: step_def render_fields)
  show "sourceLang (step host (Type v) (step host (Elapse gap) s)) = sourceLang s"
    unfolding e by (simp add: step_def render_fields)
  show "targetLang (step host (Type v) (step host (Elapse gap) s)) = targetLang s"
    unfolding e by (simp add: step_def render_fields)
  show "sourceText (step host (Type v) (step host (Elapse gap) s)) = v"
    unfolding e by (simp add: step_def render_fields)
qed

lemma run_Cons: "run host (e # evs) s = run host evs (step host e s)"
  by (simp add: run_def)

lemma run_append: "run host (evs @ evs') s = run host evs' (run host evs s)"
  by (simp add: run_def)

lemma run_Nil: "run host [] s = s"
  by (simp add: run_def)

lemma burst:
  "just_typed s \<Longrightarrow> list_all (\<lambda>k. fst k < 300) ks \<Longrightarrow>
   distinct_adj (sourceText s # map snd ks) \<Longrightarrow>
   just_typed (run host (keystrokes ks) s) \<and>
   effects (run host (keystrokes ks) s) = effects s \<and>
   sourceLang (run host (keystrokes ks) s) = sourceLang s \<and>
   targetLang (run host (keystrokes ks) s) = targetLang s \<and>
   sourceText (run host (keystrokes ks) s) = last (sourceText s # map snd ks)"
proof (induction ks arbitrary: s)
  case Nil
  then show ?case by (simp add: run_Nil)
next
  case (Cons k ks)
  obtain gap v where k: "k = (gap, v)" by (cases k)
  let ?s = "step host (Type v) (step host (Elapse gap) s)"
  from Cons.prems k have g: "gap < 300" and v: "v \<noteq> sourceText s"
    and rest: "list_all (\<lambda>k. fst k < 300) ks" and da: "distinct_adj (v # map snd ks)"
    by auto
  note q = quiet_then_Type [OF Cons.prems(1) g v, of host]
  from da q(5) have "distinct_adj (sourceText ?s # map snd ks)" by simp
  from Cons.IH [OF q(1) rest this] q(2-5) k show ?case
    by (simp add: run_Cons)
qed

lemma fire_after_quiet:
  assumes j: "just_typed s" and d: "300 \<le> d"
  shows "effects (step host (Elapse d) s) =
      effects s @
        (if trim (sourceText s) = [] then []
         else [Sent \<lparr>model = ascii ''gemini-3-flash-preview'',
                      contents = translate_prompt (sourceText s) (sourceLang s) (targetLang s),
                      config = JsonSchema\<rparr>])"
    and "timers (step host (Elapse d) s) = []"
proof -
  show "effects (step host (Elapse d) s) =
      effects s @
        (if trim (sourceText s) = [] then []
         else [Sent \<lparr>model = ascii ''gemini-3-flash-preview'',
                      contents = translate_prompt (sourceText s) (sourceLang s) (targetLang s),
                      config = JsonSchema\<rparr>])"
  proof (cases "sourceText s = []")
    case True
    with j have "timers s = []" by (simp add: just_typed_def)
    with True show ?thesis by (simp add: step_def elapse_none trim_def)
  next
    case False
    with j have t: "timers s = [(the (debounceTimer s), clock s + 300,
        sourceText s, sourceLang s, targetLang s)]"
      by (simp add: just_typed_def)
    from d have "clock s + 300 \<le> clock s + d" by simp
    from elapse_one [OF t this] show ?thesis
      by (simp add: step_def handleTranslate_eq)
  qed
  show "timers (step host (Elapse d) s) = []"
  proof (cases "sourceText s = []")
    case True
    with j have "timers s = []" by (simp add: just_typed_def)
    then show ?thesis by (simp add: step_def elapse_none)
  next
    case False
    with j have t: "timers s = [(the (debounceTimer s), clock s + 300,
        sourceText s, sourceLang s, targetLang s)]"
      by (simp add: just_typed_def)
    from d have "clock s + 300 \<le> clock s + d" by simp
    from elapse_one [OF t this] show ?thesis
      by (simp add: step_def handleTranslate_eq)
  qed
qed

text \<open>
  Claim C2, amended. From a reachable state, let a burst of keystrokes change the text
  again and again, each less than 300 ms after the one before, and let 300 ms or more
  pass after the last. If the final text has a character that is not whitespace, exactly
  one translation request is sent in all that time, and it carries the final text and
  the selected languages; if the final text is empty or whitespace only, none is sent.
  No timeout is left pending. In every reachable state at most one timeout is pending.
\<close>

theorem debounce_burst:
  "(reachable host s \<longrightarrow> v0 \<noteq> sourceText s \<longrightarrow>
    list_all (\<lambda>k. fst k < 300) ks \<longrightarrow> distinct_adj (v0 # map snd ks) \<longrightarrow> 300 \<le> d \<longrightarrow>
      effects (run host (Type v0 # keystrokes ks @ [Elapse d]) s) =
        effects s @
          (if trim (last (v0 # map snd ks)) = [] then []
           else [Sent \<lparr>model = ascii ''gemini-3-flash-preview'',
                        contents = translate_prompt (last (v0 # map snd ks))
                                     (sourceLang s) (targetLang s),
                        config = JsonSchema\<rparr>]) \<and>
      timers (run host (Type v0 # keystrokes ks @ [Elapse d]) s) = []) \<and>
   (reachable host s \<longrightarrow> length (timers s) \<le> 1)"
proof (intro conjI impI)
  assume r: "reachable host s" and v0: "v0 \<noteq> sourceText s"
    and gaps: "list_all (\<lambda>k. fst k < 300) ks"
    and da: "distinct_adj (v0 # map snd ks)" and d: "300 \<le> d"
  from r have inv: "timer_inv s" by (rule reachable_timer_inv)
  let ?s1 = "step host (Type v0) s"
  let ?s2 = "run host (keystrokes ks) ?s1"
  from inv v0 have j1: "just_typed ?s1" by (rule just_typed_after_Type)
  have f1: "sourceText ?s1 = v0" "effects ?s1 = effects s"
    "sourceLang ?s1 = sourceLang s" "targetLang ?s1 = targetLang s"
    by (simp_all add: step_def render_fields)
  from da f1(1) have "distinct_adj (sourceText ?s1 # map snd ks)" by simp
  from burst [OF j1 gaps this, of host] f1
  have j2: "just_typed ?s2" and f2: "effects ?s2 = effects s"
    "sourceLang ?s2 = sourceLang s" "targetLang ?s2 = targetLang s"
    "sourceText ?s2 = last (v0 # map snd ks)"
    by simp_all
  have split: "run host (Type v0 # keystrokes ks @ [Elapse d]) s = step host (Elapse d) ?s2"
    by (simp add: run_Cons run_append run_Nil)
  from fire_after_quiet [OF j2 d, of host] f2
  show "effects (run host (Type v0 # keystrokes ks @ [Elapse d]) s) =
        effects s @
          (if trim (last (v0 # map snd ks)) = [] then []
           else [Sent \<lparr>model = ascii ''gemini-3-flash-preview'',
                        contents = translate_prompt (last (v0 # map snd ks))
                                     (sourceLang s) (targetLang s),
                        config = JsonSchema\<rparr>])"
    and "timers (run host (Type v0 # keystrokes ks @ [Elapse d]) s) = []"
    unfolding split by simp_all
next
  assume "reachable host s"
  then have "timer_inv s" by (rule reachable_timer_inv)
  then show "length (timers s) \<le> 1" by (simp add: timer_inv_def)
qed

subsection \<open>Evaluating concrete runs\<close>

lemma unat_ascii_unit: "unat (word_of_nat (of_char c) :: 16 word) = of_char c"
proof -
  have "(of_char c :: nat) < 65536"
    using nat_of_char_less_256 [of c] by linarith
  then have "(of_char c :: nat) mod 65536 = of_char c" by (rule mod_less)
  then show ?thesis by (simp add: unat_of_nat)
qed

lemma ascii_eq_iff [simp]: "ascii a = ascii b \<longleftrightarrow> a = b"
proof
  assume "ascii a = ascii b"
  then have "map unat (ascii a) = map unat (ascii b)" by simp
  then have "map (of_char :: char \<Rightarrow> nat) a = map of_char b"
    by (simp add: ascii_def comp_def unat_ascii_unit)
  then have "map (char_of :: nat \<Rightarrow> char) (map of_char a) = map char_of (map of_char b)"
    by simp
  then show "a = b" by (simp add: comp_def)
qed simp

lemma ascii_Nil_iff [simp]: "ascii a = [] \<longleftrightarrow> a = []"
  by (simp add: ascii_def)

lemma initial_eq: "initial = mounting"
  by (simp add: initial_def mounting_def debounce_effect_def clear_debounce_def
      Let_def truthy_def)

lemmas run_simps = run_Cons run_Nil

lemmas eval_defs =
  step_def elapse_def fire_eq clearTimeout_def handleTranslate_eq render_def deps_def
  debounce_effect_def clear_debounce_def swapLanguages_def Let_def truthy_def
  initial_eq mounting_def

lemma trim_a: "trim [0x61] = [0x61]"
  by (simp add: trim_def is_whitespace_def whitespace_units_def)

lemma trim_space: "trim [0x20] = []"
  by (simp add: trim_def is_whitespace_def whitespace_units_def)

text \<open>
  Claim C2, as stated: every burst of keystrokes within the window ends in exactly one
  translation dispatch with the final text. It fails when the final text is empty: the
  text a is typed and deleted 100 ms later; 300 ms after that no request has been sent,
  none is suspended and no timeout is pending. It fails as well for a single keystroke
  that types a space.
\<close>

theorem debounce_counterexample:
  "effects (run sample_host [Type [0x61], Elapse 100, Type [], Elapse 300] initial) = [] \<and>
   translating (run sample_host [Type [0x61], Elapse 100, Type [], Elapse 300] initial) = [] \<and>
   timers (run sample_host [Type [0x61], Elapse 100, Type [], Elapse 300] initial) = [] \<and>
   effects (run sample_host [Type [0x20], Elapse 300] initial) = [] \<and>
   translating (run sample_host [Type [0x20], Elapse 300] initial) = [] \<and>
   timers (run sample_host [Type [0x20], Elapse 300] initial) = []"
  by (simp add: run_simps eval_defs trim_space)

theorem debounce_burst_witness:
  "reachable sample_host initial \<and>
   effects (run sample_host
      (Type [0x6D] # keystrokes [(100, [0x6D, 0x61]), (299, [0x61])] @ [Elapse 300]) initial) =
     [Sent \<lparr>model = ascii ''gemini-3-flash-preview'',
            contents = translate_prompt [0x61] (ascii ''tr'') (ascii ''en''),
            config = JsonSchema\<rparr>] \<and>
   timers (run sample_host
      (Type [0x6D] # keystrokes [(100, [0x6D, 0x61]), (299, [0x61])] @ [Elapse 300]) initial) = [] \<and>
   length (timers initial) \<le> 1"
  using debounce_burst
    [of sample_host initial "[0x6D]" "[(100, [0x6D, 0x61]), (299, [0x61])]" 300]
  by (simp add: reachable_initial trim_a) (simp add: initial_eq mounting_def)

subsection \<open>Completion of a translation\<close>

lemma trim_hello: "trim (ascii ''hello'') = ascii ''hello''"
  by (simp add: trim_def ascii_def is_whitespace_def whitespace_units_def)

lemma trim_merhaba: "trim (ascii ''merhaba'') = ascii ''merhaba''"
  by (simp add: trim_def ascii_def is_whitespace_def whitespace_units_def)

lemma trim_m_a: "trim [0x6D, 0x61] = [0x6D, 0x61]"
  by (simp add: trim_def is_whitespace_def whitespace_units_def)

lemma sample_parse:
  "translateText_resume (host_JSON_parse sample_host) sLang
      (Resolves (Some (sample_response ''hello'' ''tr''))) =
     Returned \<lparr>translatedText = ascii ''hello'', detectedLanguageCode = ascii ''tr''\<rparr>"
  "translateText_resume (host_JSON_parse sample_host) sLang
      (Resolves (Some (sample_response ''hello'' ''en''))) =
     Returned \<lparr>translatedText = ascii ''hello'', detectedLanguageCode = ascii ''en''\<rparr>"
  "translateText_resume (host_JSON_parse sample_host) sLang
      (Resolves (Some (sample_response ''hi'' ''tr''))) =
     Returned \<lparr>translatedText = ascii ''hi'', detectedLanguageCode = ascii ''tr''\<rparr>"
  by (simp_all add: translateText_resume_def translate_try_def translate_catch_def
      sample_host_def sample_response_def or_else_def truthy_def)

lemma find_code_Some: "find (\<lambda>l. code l = d) languages = Some l \<Longrightarrow> code l = d"
  by (auto simp: find_Some_iff)

lemma empty_not_code: "[] \<notin> set (map code languages)"
  by (simp add: languages_def ascii_def)

lemma sourceLang_handleTranslate_resume:
  "sourceLang (handleTranslate_resume s sLang result) =
     (if detectedLanguageCode result \<noteq> sLang \<and>
         detectedLanguageCode result \<in> set (map code languages)
      then detectedLanguageCode result else sourceLang s)"
proof (cases "find (\<lambda>l. code l = detectedLanguageCode result) languages")
  case None
  then have "detectedLanguageCode result \<notin> set (map code languages)"
    by (auto simp: find_None_iff)
  with None show ?thesis
    by (simp add: handleTranslate_resume_def Let_def)
next
  case (Some l)
  then have c: "code l = detectedLanguageCode result" by (rule find_code_Some)
  from Some have "l \<in> set languages" by (auto simp: find_Some_iff in_set_conv_nth)
  with c have m: "detectedLanguageCode result \<in> set (map code languages)" by force
  with empty_not_code have "detectedLanguageCode result \<noteq> []" by metis
  with Some c m show ?thesis
    by (simp add: handleTranslate_resume_def Let_def truthy_def)
qed

lemma handleTranslate_resume_fields:
  "targetText (handleTranslate_resume s sLang result) = translatedText result"
  "isLoading (handleTranslate_resume s sLang result) = False"
  "sourceText (handleTranslate_resume s sLang result) = sourceText s"
  "targetLang (handleTranslate_resume s sLang result) = targetLang s"
  "translating (handleTranslate_resume s sLang result) = translating s"
  "effects (handleTranslate_resume s sLang result) = effects s"
  by (simp_all add: handleTranslate_resume_def Let_def split: option.split)

lemma step_TranslationSettles:
  "i < length (translating s) \<Longrightarrow> translating s ! i = (text, sLang, tLang) \<Longrightarrow>
   translateText_resume (host_JSON_parse host) sLang out = Returned result \<Longrightarrow>
   step host (TranslationSettles i out) s =
     render s (handleTranslate_resume (s\<lparr>translating := remove_nth i (translating s)\<rparr>)
                 sLang result)"
  by (simp add: step_def)

lemma settled_fields:
  assumes "i < length (translating s)" and "translating s ! i = (text, sLang, tLang)"
    and "translateText_resume (host_JSON_parse host) sLang out = Returned result"
  shows "sourceLang (step host (TranslationSettles i out) s) =
      (if detectedLanguageCode result \<noteq> sLang \<and>
          detectedLanguageCode result \<in> set (map code languages)
       then detectedLanguageCode result else sourceLang s)"
    and "isLoading (step host (TranslationSettles i out) s) = False"
    and "targetText (step host (TranslationSettles i out) s) =
      (if sourceLang (step host (TranslationSettles i out) s) \<noteq> sourceLang s \<and>
          sourceText s = []
       then [] else translatedText result)"
    and "sourceText (step host (TranslationSettles i out) s) = sourceText s"
    and "translating (step host (TranslationSettles i out) s) = remove_nth i (translating s)"
  by (simp_all add: step_TranslationSettles [OF assms] render_targetText render_fields
      handleTranslate_resume_fields sourceLang_handleTranslate_resume deps_def)

text \<open>
  Claim C3, as stated: the detected code is compared with the currently selected source
  language. It fails when the selection changed while the request was in flight: a
  request sent for Turkish, a change of the selection to German, and a result that
  detects Turkish (a catalog language other than the selected one) leave German selected.
\<close>

theorem completion_counterexample:
  "translating (run sample_host
      [Type (ascii ''merhaba''), Elapse 300, SelectSource 2] initial) =
     [(ascii ''merhaba'', ascii ''tr'', ascii ''en'')] \<and>
   sourceLang (run sample_host
      [Type (ascii ''merhaba''), Elapse 300, SelectSource 2] initial) = ascii ''de'' \<and>
   translateText_resume (host_JSON_parse sample_host) (ascii ''tr'')
      (Resolves (Some (sample_response ''hello'' ''tr''))) =
     Returned \<lparr>translatedText = ascii ''hello'', detectedLanguageCode = ascii ''tr''\<rparr> \<and>
   ascii ''tr'' \<noteq> ascii ''de'' \<and>
   ascii ''tr'' \<in> set (map code languages) \<and>
   sourceLang (run sample_host
      [Type (ascii ''merhaba''), Elapse 300, SelectSource 2,
       TranslationSettles 0 (Resolves (Some (sample_response ''hello'' ''tr'')))]
      initial) = ascii ''de''"
  by (simp add: run_simps eval_defs trim_merhaba sample_parse languages_def
      handleTranslate_resume_def)

text \<open>
  Claim C3, amended. When a translation completes, \<open>handleTranslate\<close> compares the
  detected code with the source language the request was sent with: if it differs from
  that and is the code of a catalog language, the selected source language becomes the
  detected one; otherwise, in particular for a code outside the catalog, the selection
  stays. It always writes the translated text to the target text and clears the loading
  flag. The same holds for the state after the completion event, except that the
  debounce effect, run when the selection changed, clears the target text if the source
  text is empty by then.
\<close>

theorem completion_updates:
  "sourceLang (handleTranslate_resume s sLang result) =
     (if detectedLanguageCode result \<noteq> sLang \<and>
         detectedLanguageCode result \<in> set (map code languages)
      then detectedLanguageCode result else sourceLang s) \<and>
   targetText (handleTranslate_resume s sLang result) = translatedText result \<and>
   isLoading (handleTranslate_resume s sLang result) = False \<and>
   (i < length (translating s) \<longrightarrow> translating s ! i = (text, sLang, tLang) \<longrightarrow>
    translateText_resume (host_JSON_parse host) sLang out = Returned result \<longrightarrow>
      sourceLang (step host (TranslationSettles i out) s) =
        (if detectedLanguageCode result \<noteq> sLang \<and>
            detectedLanguageCode result \<in> set (map code languages)
         then detectedLanguageCode result else sourceLang s) \<and>
      isLoading (step host (TranslationSettles i out) s) = False \<and>
      targetText (step host (TranslationSettles i out) s) =
        (if sourceLang (step host (TranslationSettles i out) s) \<noteq> sourceLang s \<and>
            sourceText s = []
         then [] else translatedText result))"
  using settled_fields [of i s "text" sLang tLang host out result]
  by (simp add: sourceLang_handleTranslate_resume handleTranslate_resume_fields)

theorem completion_updates_witness:
  "translating (run sample_host [Type (ascii ''hello''), Elapse 300] initial) =
     [(ascii ''hello'', ascii ''tr'', ascii ''en'')] \<and>
   sourceLang (run sample_host [Type (ascii ''hello''), Elapse 300] initial) = ascii ''tr'' \<and>
   translateText_resume (host_JSON_parse sample_host) (ascii ''tr'')
      (Resolves (Some (sample_response ''hello'' ''en''))) =
     Returned \<lparr>translatedText = ascii ''hello'', detectedLanguageCode = ascii ''en''\<rparr> \<and>
   sourceLang (step sample_host
      (TranslationSettles 0 (Resolves (Some (sample_response ''hello'' ''en''))))
      (run sample_host [Type (ascii ''hello''), Elapse 300] initial)) = ascii ''en'' \<and>
   targetText (step sample_host
      (TranslationSettles 0 (Resolves (Some (sample_response ''hello'' ''en''))))
      (run sample_host [Type (ascii ''hello''), Elapse 300] initial)) = ascii ''hello'' \<and>
   isLoading (step sample_host
      (TranslationSettles 0 (Resolves (Some (sample_response ''hello'' ''en''))))
      (run sample_host [Type (ascii ''hello''), Elapse 300] initial)) = False"
proof -
  let ?s = "run sample_host [Type (ascii ''hello''), Elapse 300] initial"
  have t: "translating ?s = [(ascii ''hello'', ascii ''tr'', ascii ''en'')]"
    and l: "sourceLang ?s = ascii ''tr''" and x: "sourceText ?s = ascii ''hello''"
    by (simp_all add: run_simps eval_defs trim_hello)
  have c: "ascii ''en'' \<in> set (map code languages)"
    by (simp add: languages_def)
  from t l x c sample_parse(2) [of "ascii ''tr''"]
    completion_updates [of ?s "ascii ''tr''"
      "\<lparr>translatedText = ascii ''hello'', detectedLanguageCode = ascii ''en''\<rparr>"
      0 "ascii ''hello''" "ascii ''en''" sample_host
      "Resolves (Some (sample_response ''hello'' ''en''))"]
  show ?thesis by simp
qed

subsection \<open>Completions out of order\<close>

lemma remove_nth_before: "i < j \<Longrightarrow> j < length xs \<Longrightarrow> remove_nth j xs ! i = xs ! i"
  by (simp add: remove_nth_def nth_append)

lemma length_remove_nth: "j < length xs \<Longrightarrow> length (remove_nth j xs) = length xs - 1"
  by (simp add: remove_nth_def)

text \<open>
  Claim C1, as stated: when A is dispatched before B and A's response resolves after B's,
  the target text at the end is B's. It fails: the texts m and ma are dispatched in
  this order, B's response (hello) resolves first and A's (hi) second, and the target
  text at the end is hi.
\<close>

theorem stale_response_counterexample:
  "translating (run sample_host
      [Type [0x6D], Elapse 300, Type [0x6D, 0x61], Elapse 300] initial) =
     [([0x6D], ascii ''tr'', ascii ''en''), ([0x6D, 0x61], ascii ''tr'', ascii ''en'')] \<and>
   targetText (run sample_host
      [Type [0x6D], Elapse 300, Type [0x6D, 0x61], Elapse 300,
       TranslationSettles 1 (Resolves (Some (sample_response ''hello'' ''tr'')))] initial) =
     ascii ''hello'' \<and>
   targetText (run sample_host
      [Type [0x6D], Elapse 300, Type [0x6D, 0x61], Elapse 300,
       TranslationSettles 1 (Resolves (Some (sample_response ''hello'' ''tr''))),
       TranslationSettles 0 (Resolves (Some (sample_response ''hi'' ''tr'')))] initial) =
     ascii ''hi'' \<and>
   ascii ''hi'' \<noteq> ascii ''hello''"
  by (simp add: run_simps eval_defs trim_m trim_m_a sample_parse languages_def
      handleTranslate_resume_def remove_nth_def)

text \<open>
  Claim C1, amended. The controller tags no dispatch and discards no completion: every
  completion is applied when it resolves. When A was dispatched before B, both results
  arrive and the source text is not empty, B's completion commits B's text and A's later
  completion replaces it: the target text at the end is A's, and the loading flag is
  cleared.
\<close>

theorem stale_completion_overwrites:
  "i < j \<longrightarrow> j < length (translating s) \<longrightarrow>
   translating s ! i = (textA, sLangA, tLangA) \<longrightarrow>
   translating s ! j = (textB, sLangB, tLangB) \<longrightarrow>
   translateText_resume (host_JSON_parse host) sLangA outA = Returned resultA \<longrightarrow>
   translateText_resume (host_JSON_parse host) sLangB outB = Returned resultB \<longrightarrow>
   sourceText s \<noteq> [] \<longrightarrow>
     targetText (run host [TranslationSettles j outB] s) = translatedText resultB \<and>
     targetText (run host [TranslationSettles j outB, TranslationSettles i outA] s) =
       translatedText resultA \<and>
     isLoading (run host [TranslationSettles j outB, TranslationSettles i outA] s) = False \<and>
     translating (run host [TranslationSettles j outB, TranslationSettles i outA] s) =
       remove_nth i (remove_nth j (translating s))"
proof (intro impI)
  assume ij: "i < j" and j: "j < length (translating s)"
    and a: "translating s ! i = (textA, sLangA, tLangA)"
    and b: "translating s ! j = (textB, sLangB, tLangB)"
    and ra: "translateText_resume (host_JSON_parse host) sLangA outA = Returned resultA"
    and rb: "translateText_resume (host_JSON_parse host) sLangB outB = Returned resultB"
    and x: "sourceText s \<noteq> []"
  let ?s1 = "step host (TranslationSettles j outB) s"
  note fb = settled_fields [OF j b rb]
  from fb(3) x have tb: "targetText ?s1 = translatedText resultB" by simp
  from ij j fb(5) have i1: "i < length (translating ?s1)"
    by (simp add: length_remove_nth)
  from ij j a fb(5) have a1: "translating ?s1 ! i = (textA, sLangA, tLangA)"
    by (simp add: remove_nth_before)
  note fa = settled_fields [OF i1 a1 ra]
  from fa(3) fb(4) x have ta: "targetText (step host (TranslationSettles i outA) ?s1) =
      translatedText resultA"
    by simp
  from tb ta fa(2) fa(5) fb(5)
  show "targetText (run host [TranslationSettles j outB] s) = translatedText resultB \<and>
     targetText (run host [TranslationSettles j outB, TranslationSettles i outA] s) =
       translatedText resultA \<and>
     isLoading (run host [TranslationSettles j outB, TranslationSettles i outA] s) = False \<and>
     translating (run host [TranslationSettles j outB, TranslationSettles i outA] s) =
       remove_nth i (remove_nth j (translating s))"
    by (simp add: run_simps)
qed

theorem stale_completion_overwrites_witness:
  "translating (run sample_host
      [Type [0x6D], Elapse 300, Type [0x6D, 0x61], Elapse 300] initial) =
     [([0x6D], ascii ''tr'', ascii ''en''), ([0x6D, 0x61], ascii ''tr'', ascii ''en'')] \<and>
   sourceText (run sample_host
      [Type [0x6D], Elapse 300, Type [0x6D, 0x61], Elapse 300] initial) = [0x6D, 0x61] \<and>
   targetText (run sample_host
      [TranslationSettles 1 (Resolves (Some (sample_response ''hi'' ''tr'')))]
      (run sample_host [Type [0x6D], Elapse 300, Type [0x6D, 0x61], Elapse 300] initial)) =
     ascii ''hi'' \<and>
   targetText (run sample_host
      [TranslationSettles 1 (Resolves (Some (sample_response ''hi'' ''tr''))),
       TranslationSettles 0 (Resolves (Some (sample_response ''hello'' ''en'')))]
      (run sample_host [Type [0x6D], Elapse 300, Type [0x6D, 0x61], Elapse 300] initial)) =
     ascii ''hello'' \<and>
   isLoading (run sample_host
      [TranslationSettles 1 (Resolves (Some (sample_response ''hi'' ''tr''))),
       TranslationSettles 0 (Resolves (Some (sample_response ''hello'' ''en'')))]
      (run sample_host [Type [0x6D], Elapse 300, Type [0x6D, 0x61], Elapse 300] initial)) =
     False"
proof -
  let ?s = "run sample_host [Type [0x6D], Elapse 300, Type [0x6D, 0x61], Elapse 300] initial"
  have t: "translating ?s =
      [([0x6D], ascii ''tr'', ascii ''en''), ([0x6D, 0x61], ascii ''tr'', ascii ''en'')]"
    and x: "sourceText ?s = [0x6D, 0x61]"
    by (simp_all add: run_simps eval_defs trim_m trim_m_a)
  from t x sample_parse(2) [of "ascii ''tr''"] sample_parse(3) [of "ascii ''tr''"]
    stale_completion_overwrites [of 0 1 ?s "[0x6D]" "ascii ''tr''" "ascii ''en''"
      "[0x6D, 0x61]" "ascii ''tr''" "ascii ''en''" sample_host
      "Resolves (Some (sample_response ''hello'' ''en''))"
      "\<lparr>translatedText = ascii ''hello'', detectedLanguageCode = ascii ''en''\<rparr>"
      "Resolves (Some (sample_response ''hi'' ''tr''))"
      "\<lparr>translatedText = ascii ''hi'', detectedLanguageCode = ascii ''tr''\<rparr>"]
  show ?thesis by simp
qed

subsection \<open>Swap\<close>

text \<open>
  What \<open>swapLanguages\<close> itself does: it exchanges the two languages and the two texts
  in one update and calls no client.
\<close>

lemma swapLanguages_exchange:
  "sourceLang (swapLanguages s) = targetLang s \<and>
   targetLang (swapLanguages s) = sourceLang s \<and>
   sourceText (swapLanguages s) = targetText s \<and>
   targetText (swapLanguages s) = sourceText s \<and>
   translating (swapLanguages s) = translating s \<and>
   timers (swapLanguages s) = timers s \<and>
   effects (swapLanguages s) = effects s"
  by (simp add: swapLanguages_def)

text \<open>
  The state the swap settles in, once the update is committed and the debounce effect it
  triggers has run: the languages and the source text are exchanged and no request is
  sent, but the target text is the former source text only if the former target text
  was not empty.
\<close>

lemma swap_settled:
  "sourceLang (step host Swap s) = targetLang s \<and>
   targetLang (step host Swap s) = sourceLang s \<and>
   sourceText (step host Swap s) = targetText s \<and>
   targetText (step host Swap s) = (if targetText s = [] then [] else sourceText s) \<and>
   translating (step host Swap s) = translating s \<and>
   effects (step host Swap s) = effects s"
  by (auto simp: step_def render_fields render_targetText swapLanguages_def deps_def)

text \<open>
  Claim C5. The swap is to leave the source language, target language, source text and
  target text equal to the former target language, source language, target text and
  source text, for every state before it. The handler attempts exactly that, but the
  code misses it when the target text is empty and the source text is not: with hello
  typed and nothing translated yet, the swap exchanges the languages and leaves both
  texts empty, where the target text should be hello. The branch of the debounce effect
  that clears the target text for an emptied input runs on the swapped state and undoes
  the handler's update, and the text the user typed is lost.
\<close>

theorem swap_loses_source_text:
  "sourceLang (run sample_host [Type (ascii ''hello'')] initial) = ascii ''tr'' \<and>
   targetLang (run sample_host [Type (ascii ''hello'')] initial) = ascii ''en'' \<and>
   sourceText (run sample_host [Type (ascii ''hello'')] initial) = ascii ''hello'' \<and>
   targetText (run sample_host [Type (ascii ''hello'')] initial) = [] \<and>
   sourceLang (run sample_host [Type (ascii ''hello''), Swap] initial) = ascii ''en'' \<and>
   targetLang (run sample_host [Type (ascii ''hello''), Swap] initial) = ascii ''tr'' \<and>
   sourceText (run sample_host [Type (ascii ''hello''), Swap] initial) = [] \<and>
   targetText (run sample_host [Type (ascii ''hello''), Swap] initial) = [] \<and>
   ascii ''hello'' \<noteq> []"
  by (simp add: run_simps eval_defs)

end
